theory Spec2Isabelle
  imports Complex_Main "HOL-Library.AList"
begin

section \<open>Python values, exceptions and results\<close>

text \<open>
  The payloads that travel through \<^verbatim>\<open>app.py\<close> are JSON-shaped Python objects. A dict is
  an association list in insertion order; \<open>PObj\<close> is an opaque object known only by its
  identity. Finite floats are carried by their exact value (no arithmetic is done on them
  here); NaN and infinities are not represented.
\<close>

datatype pyval =
    PNone
  | PBool bool
  | PInt int
  | PFloat rat
  | PStr string
  | PObj nat
  | PList "pyval list"
  | PDict "(pyval \<times> pyval) list"

text \<open>
  The exceptions that occur: \<^verbatim>\<open>assert\<close> without a message, a missing dict key, a type
  error, a missing attribute, bytes that cannot be decoded, and any other exception with
  its message. The message given to a \<^verbatim>\<open>TypeError\<close> or an \<^verbatim>\<open>AttributeError\<close> below names the
  kind of failure only; no property depends on its wording.
\<close>

datatype error =
    AssertionError
  | KeyError pyval
  | TypeError string
  | AttributeError string
  | UnicodeDecodeError string
  | Exception string

datatype 'a result = Return 'a | Raise error

text \<open>
  A statement sequence: what follows runs only when what comes before returned; an
  exception keeps the state reached so far.
\<close>

definition then_do ::
  "'a result \<times> 's \<Rightarrow> ('a \<Rightarrow> 's \<Rightarrow> 'b result \<times> 's) \<Rightarrow> 'b result \<times> 's" where
  "then_do m f = (case m of (Raise err, s) \<Rightarrow> (Raise err, s) | (Return v, s) \<Rightarrow> f v s)"

subsection \<open>Dicts, items and attributes\<close>

text \<open>
  Python compares dict keys with \<^verbatim>\<open>==\<close>, under which \<^verbatim>\<open>True == 1 == 1.0\<close>; every other
  hashable value modelled here equals only itself. Lists and dicts are unhashable.
\<close>

fun num_of :: "pyval \<Rightarrow> rat option" where
  "num_of (PBool b) = Some (if b then 1 else 0)"
| "num_of (PInt i) = Some (of_int i)"
| "num_of (PFloat r) = Some r"
| "num_of _ = None"

definition key_eq :: "pyval \<Rightarrow> pyval \<Rightarrow> bool" where
  "key_eq a b =
     (case (num_of a, num_of b) of
        (Some x, Some y) \<Rightarrow> x = y
      | (None, None) \<Rightarrow> a = b
      | _ \<Rightarrow> False)"

fun hashable :: "pyval \<Rightarrow> bool" where
  "hashable (PList _) = False"
| "hashable (PDict _) = False"
| "hashable _ = True"

text \<open>\<^verbatim>\<open>d.get(k)\<close>: the value of the entry whose key equals \<open>k\<close>.\<close>

fun dict_get :: "(pyval \<times> pyval) list \<Rightarrow> pyval \<Rightarrow> pyval option" where
  "dict_get [] k = None"
| "dict_get ((k', v') # d) k = (if key_eq k' k then Some v' else dict_get d k)"

text \<open>
  \<^verbatim>\<open>d[k] = v\<close> for a hashable \<open>k\<close>: an entry with an equal key keeps its place and its key
  object and takes the new value; otherwise a new entry goes to the end.
\<close>

fun dict_set :: "pyval \<Rightarrow> pyval \<Rightarrow> (pyval \<times> pyval) list \<Rightarrow> (pyval \<times> pyval) list" where
  "dict_set k v [] = [(k, v)]"
| "dict_set k v ((k', v') # d) =
     (if key_eq k' k then (k', v) # d else (k', v') # dict_set k v d)"

text \<open>\<^verbatim>\<open>obj[key]\<close> with a string key; only a dict can be indexed so.\<close>

fun py_getitem :: "pyval \<Rightarrow> string \<Rightarrow> pyval result" where
  "py_getitem (PDict d) key =
     (case dict_get d (PStr key) of
        None \<Rightarrow> Raise (KeyError (PStr key))
      | Some v \<Rightarrow> Return v)"
| "py_getitem (PList _) key = Raise (TypeError ''list indices must be integers or slices, not str'')"
| "py_getitem (PStr _) key = Raise (TypeError ''string indices must be integers'')"
| "py_getitem _ key = Raise (TypeError ''object is not subscriptable'')"

text \<open>\<^verbatim>\<open>obj[key] = v\<close> with a string key.\<close>

fun py_setitem :: "pyval \<Rightarrow> string \<Rightarrow> pyval \<Rightarrow> pyval result" where
  "py_setitem (PDict d) key v = Return (PDict (dict_set (PStr key) v d))"
| "py_setitem (PList _) key v = Raise (TypeError ''list indices must be integers or slices, not str'')"
| "py_setitem _ key v = Raise (TypeError ''object does not support item assignment'')"

text \<open>\<^verbatim>\<open>for ev in obj\<close>: the elements of a list, the keys of a dict, the characters of a string.\<close>

fun py_iter :: "pyval \<Rightarrow> pyval list result" where
  "py_iter (PList xs) = Return xs"
| "py_iter (PDict d) = Return (map fst d)"
| "py_iter (PStr cs) = Return (map (\<lambda>c. PStr [c]) cs)"
| "py_iter _ = Raise (TypeError ''object is not iterable'')"

text \<open>
  \<^verbatim>\<open>obj.name\<close> on an object returned by the engine; such an object is carried as the dict of
  its attributes.
\<close>

fun py_getattr :: "pyval \<Rightarrow> string \<Rightarrow> pyval result" where
  "py_getattr (PDict d) name =
     (case dict_get d (PStr name) of
        None \<Rightarrow> Raise (AttributeError name)
      | Some v \<Rightarrow> Return v)"
| "py_getattr _ name = Raise (AttributeError name)"

section \<open>Process state\<close>

text \<open>
  \<^verbatim>\<open>WS_EVENT_INTENT = 0\<close>, \<^verbatim>\<open>WS_EVENT_LOG = 1\<close>: the only two indices ever used for
  \<^verbatim>\<open>ws_queues\<close> and \<^verbatim>\<open>ws_locks\<close>.
\<close>

datatype ws_event = WS_EVENT_INTENT | WS_EVENT_LOG

text \<open>Calls made into the engine package (\<^verbatim>\<open>rhasspy.core\<close>, \<^verbatim>\<open>rhasspy.actor\<close>).\<close>

datatype engine_call =
    ActorSystem
  | RhasspyCore nat
  | ProfileSet nat string pyval
  | CreateActor
  | AskConfigure nat
  | CoreStart nat
  | CoreShutdown nat
  | CheckProfile nat
  | TranscribeWav nat string
  | StopRecordingWav nat string
  | SpeakSentence nat string
  | RecognizeIntent nat pyval
  | HandleIntent nat pyval

text \<open>
  The module-level globals. An engine instance, a websocket and a \<^verbatim>\<open>GQueue\<close> are objects;
  each is a natural number standing for its identity. \<open>core\<close> is the global \<^verbatim>\<open>core\<close>
  (\<open>None\<close> is Python's \<^verbatim>\<open>None\<close>). \<open>ws_queues e\<close> is the dict \<^verbatim>\<open>ws_queues[e]\<close> from websocket to
  queue object, in insertion order; \<open>queues q\<close> is the content of queue object \<open>q\<close>, oldest
  message first. \<open>last_sentence\<close> is the global of line 664. Two histories are kept beside
  the globals, to speak about what happened:
  \<open>engine_calls\<close> is every call made into the engine and \<open>published\<close> is every call of
  \<^verbatim>\<open>add_ws_event\<close>, both in order.
\<close>

record app =
  core :: "nat option"
  next_engine :: nat
  engine_calls :: "engine_call list"
  environ :: "(string \<times> string) list"
  ws_queues :: "ws_event \<Rightarrow> (nat \<times> nat) list"
  queues :: "nat \<Rightarrow> string list"
  next_queue :: nat
  last_sentence :: string
  published :: "(ws_event \<times> string) list"

text \<open>The state right after the module's globals are initialised (lines 116, 664, 860).\<close>

definition initial :: app where
  "initial = \<lparr> core = None, next_engine = 0, engine_calls = [], environ = [],
     ws_queues = (\<lambda>_. []), queues = (\<lambda>_. []), next_queue = 0,
     last_sentence = [], published = [] \<rparr>"

section \<open>WebSocket event channels\<close>

text \<open>\<^verbatim>\<open>queue.put(text)\<close> on the unbounded queue object \<open>q\<close>.\<close>

definition queue_put :: "string \<Rightarrow> nat \<Rightarrow> (nat \<Rightarrow> string list) \<Rightarrow> (nat \<Rightarrow> string list)" where
  "queue_put text q h = h(q := h q @ [text])"

text \<open>
  \<^verbatim>\<open>add_ws_event\<close> (lines 864-870): one \<^verbatim>\<open>put\<close> for each value of the dict, in order. The
  lock and \<^verbatim>\<open>gevent.sleep(0)\<close> change no data; operations are taken one at a time.
\<close>

definition add_ws_event :: "ws_event \<Rightarrow> string \<Rightarrow> app \<Rightarrow> app" where
  "add_ws_event event_type text s =
     s\<lparr> queues := fold (queue_put text) (map snd (ws_queues s event_type)) (queues s),
        published := published s @ [(event_type, text)] \<rparr>"

text \<open>
  Entry of a websocket handler (lines 902-904 and 921-923): \<^verbatim>\<open>q = GQueue()\<close> makes a new
  empty queue object, and \<^verbatim>\<open>ws_queues[e][ws] = q\<close> stores it (replacing the value in place
  when the key is already there, as a Python dict does).
\<close>

definition ws_register :: "ws_event \<Rightarrow> nat \<Rightarrow> app \<Rightarrow> app" where
  "ws_register e ws s =
     (let q = next_queue s in
      s\<lparr> ws_queues := (ws_queues s)(e := AList.update ws q (ws_queues s e)),
         queues := (queues s)(q := []),
         next_queue := Suc q \<rparr>)"

text \<open>
  Exit of a websocket handler (lines 914-915 and 933-934): \<^verbatim>\<open>del ws_queues[e][ws]\<close>, which
  raises \<^verbatim>\<open>KeyError\<close> when the key is missing.
\<close>

definition ws_remove :: "ws_event \<Rightarrow> nat \<Rightarrow> app \<Rightarrow> unit result \<times> app" where
  "ws_remove e ws s =
     (if ws \<in> fst ` set (ws_queues s e)
      then (Return (), s\<lparr> ws_queues := (ws_queues s)(e := AList.delete ws (ws_queues s e)) \<rparr>)
      else (Raise (KeyError (PObj ws)), s))"

text \<open>
  Between entry and exit a handler only takes messages out of its own queue and sends them
  (lines 907-909); that loop is left out, so a queue here keeps every message put into it.

  The operations on the channels, and a run of them that stops at the first exception.
\<close>

datatype chan_op = Subscribe ws_event nat | Unsubscribe ws_event nat | Publish ws_event string

fun chan_step :: "chan_op \<Rightarrow> app \<Rightarrow> unit result \<times> app" where
  "chan_step (Subscribe e ws) s = (Return (), ws_register e ws s)"
| "chan_step (Unsubscribe e ws) s = ws_remove e ws s"
| "chan_step (Publish e text) s = (Return (), add_ws_event e text s)"

fun chan_run :: "chan_op list \<Rightarrow> app \<Rightarrow> unit result \<times> app" where
  "chan_run [] s = (Return (), s)"
| "chan_run (op # ops) s =
     (case chan_step op s of
        (Raise err, s') \<Rightarrow> (Raise err, s')
      | (Return _, s') \<Rightarrow> chan_run ops s')"

text \<open>
  What the specification says a subscriber holds, read off the history (most recent
  operation first): nothing at all unless it is registered; from its latest registration
  on, the messages published to its channel, each once, in publish order.
\<close>

fun received_rev :: "ws_event \<Rightarrow> nat \<Rightarrow> chan_op list \<Rightarrow> string list option" where
  "received_rev e ws [] = None"
| "received_rev e ws (Subscribe e' ws' # earlier) =
     (if e' = e \<and> ws' = ws then Some [] else received_rev e ws earlier)"
| "received_rev e ws (Unsubscribe e' ws' # earlier) =
     (if e' = e \<and> ws' = ws then None else received_rev e ws earlier)"
| "received_rev e ws (Publish e' text # earlier) =
     (if e' = e then map_option (\<lambda>msgs. msgs @ [text]) (received_rev e ws earlier)
      else received_rev e ws earlier)"

definition received :: "ws_event \<Rightarrow> nat \<Rightarrow> chan_op list \<Rightarrow> string list option" where
  "received e ws ops = received_rev e ws (rev ops)"

text \<open>What the state holds for a subscriber: the content of its registered queue.\<close>

definition mailbox :: "app \<Rightarrow> ws_event \<Rightarrow> nat \<Rightarrow> string list option" where
  "mailbox s e ws = map_option (queues s) (map_of (ws_queues s e) ws)"

text \<open>
  Every registered queue object is registered under one websocket of one channel only, and
  was made before the next one to be made.
\<close>

definition queues_ok :: "app \<Rightarrow> bool" where
  "queues_ok s \<longleftrightarrow>
     (\<forall>e. distinct (map snd (ws_queues s e))) \<and>
     (\<forall>e. \<forall>q \<in> snd ` set (ws_queues s e). q < next_queue s) \<and>
     (\<forall>e e'. e \<noteq> e' \<longrightarrow> snd ` set (ws_queues s e) \<inter> snd ` set (ws_queues s e') = {})"

section \<open>Requests and views\<close>

text \<open>
  What a view reads of the request being served: the body (\<^verbatim>\<open>request.data\<close>), the query
  arguments (\<^verbatim>\<open>request.args\<close>), and the time that \<^verbatim>\<open>time.time()\<close> measures while the request
  is served.
\<close>

record request =
  req_data :: string
  req_args :: "(string \<times> string) list"
  req_elapsed :: rat

text \<open>\<^verbatim>\<open>request.args.get(name, default)\<close>.\<close>

definition request_arg :: "request \<Rightarrow> string \<Rightarrow> string \<Rightarrow> string" where
  "request_arg req name dflt =
     (case map_of (req_args req) name of None \<Rightarrow> dflt | Some v \<Rightarrow> v)"

text \<open>What a view returns: a text, or the JSON response that \<^verbatim>\<open>jsonify\<close> makes of a value.\<close>

datatype response = Text string | Json pyval

text \<open>The 26 views of the HTTP API that read the global \<^verbatim>\<open>core\<close>, in the order of the file.\<close>

datatype view =
    ApiProfiles | ApiDownloadProfile | ApiProblems | ApiMicrophones | ApiTestMicrophones
  | ApiSpeakers | ApiListenForWake | ApiListenForCommand | ApiProfile | ApiLookup
  | ApiPronounce | ApiPlayWav | ApiPhonemes | ApiSentences | ApiCustomWords | ApiTrain
  | ApiRestart | ApiSpeechToText | ApiTextToIntent | ApiSpeechToIntent | ApiStartRecording
  | ApiStopRecording | ApiUnknownWords | ApiTextToSpeech | ApiSlots | ApiSlotsByName

section \<open>What lies outside the file\<close>

text \<open>
  \<^verbatim>\<open>app.py\<close> calls the engine package, the standard library and Flask. Their behaviour is a
  parameter of every definition below:
  \<^item> \<open>args_set\<close>: the \<^verbatim>\<open>--set\<close> pairs of the command line (\<^verbatim>\<open>args.set\<close>);
  \<^item> \<open>json_loads\<close>, \<open>json_dumps\<close>: \<^verbatim>\<open>json.loads\<close> (\<open>None\<close>: it raises) and \<^verbatim>\<open>json.dumps\<close>;
  \<^item> \<open>jsonify\<close>: Flask's \<^verbatim>\<open>jsonify\<close>, which raises on a value it cannot serialise;
  \<^item> \<open>py_str\<close>, \<open>py_repr\<close>: \<^verbatim>\<open>str\<close> and \<^verbatim>\<open>repr\<close> of a value;
  \<^item> \<open>py_lower\<close>, \<open>py_strip\<close>, \<open>decode\<close>: \<^verbatim>\<open>str.lower\<close>, \<^verbatim>\<open>str.strip\<close> and \<^verbatim>\<open>bytes.decode\<close>, which
    raises on bytes that are not UTF-8;
  \<^item> \<open>log_format\<close>, \<open>log_format_exc\<close>: the text the logging handler makes of a record, from
    the logger, the level and the message (and the exception in flight);
  \<^item> \<open>getcwd\<close>, \<open>profile_name\<close>, \<open>profile_write_dir\<close>: \<^verbatim>\<open>os.getcwd()\<close>, \<^verbatim>\<open>core.profile.name\<close>
    and \<^verbatim>\<open>core.profile.write_dir()\<close> of an engine instance;
  \<^item> \<open>list_profiles\<close>: the directory names found under \<^verbatim>\<open>profiles_dirs\<close>, sorted;
  \<^item> \<open>buffer_to_wav\<close>: \<^verbatim>\<open>rhasspy.utils.buffer_to_wav\<close>;
  \<^item> \<open>requests_get\<close>: what \<^verbatim>\<open>requests.get\<close> on \<^verbatim>\<open>/api/ping\<close> does: the log lines emitted in the
    process while it runs (the HTTP library logs at \<^verbatim>\<open>DEBUG\<close>), as the logging handler formats
    them, and its exception if it raises;
  \<^item> \<open>engine\<close>: what a call into the engine does, given the calls made before it: the
    log lines it emits (as the logging handler formats them) and its exception or result;
  \<^item> \<open>view_rest\<close>: for a view whose statements after the \<^verbatim>\<open>assert\<close> are not modelled one
    by one, what they do, given the engine the handle names and the calls made so far:
    the calls they make into the engine, the log lines published meanwhile, and the
    return value or exception. (These statements read and write files and call the
    engine; none of them assigns a global.)
\<close>

datatype logger_id = ModuleLogger | ActorLogger

record ext =
  args_set :: "(string \<times> string) list"
  json_loads :: "string \<Rightarrow> pyval option"
  json_dumps :: "pyval \<Rightarrow> error + string"
  jsonify :: "pyval \<Rightarrow> error + response"
  py_str :: "pyval \<Rightarrow> string"
  py_repr :: "pyval \<Rightarrow> string"
  py_lower :: "string \<Rightarrow> string"
  py_strip :: "string \<Rightarrow> string"
  decode :: "string \<Rightarrow> error + string"
  log_format :: "logger_id \<Rightarrow> string \<Rightarrow> string \<Rightarrow> string"
  log_format_exc :: "logger_id \<Rightarrow> string \<Rightarrow> error \<Rightarrow> string"
  getcwd :: string
  profile_name :: "nat \<Rightarrow> string"
  profile_write_dir :: "nat \<Rightarrow> string"
  list_profiles :: "string list"
  buffer_to_wav :: "pyval \<Rightarrow> error + string"
  requests_get :: "string list \<times> error option"
  engine :: "engine_call list \<Rightarrow> engine_call \<Rightarrow> string list \<times> (error + pyval)"
  view_rest :: "view \<Rightarrow> request \<Rightarrow> nat \<Rightarrow> engine_call list \<Rightarrow>
                  (engine_call list \<times> string list) \<times> response result"

section \<open>Logging\<close>

text \<open>
  Modelled from the spec: \<^verbatim>\<open>FunctionLoggingHandler\<close> (\<^verbatim>\<open>rhasspy.utils\<close>) is not in the file.
  Lines 873-875 install it on the root logger with the function
  \<^verbatim>\<open>lambda msg: add_ws_event(WS_EVENT_LOG, msg)\<close>, and the specification has every log line
  produced anywhere in the process published to the log channel: one call of that
  function for each record. The root level is \<^verbatim>\<open>DEBUG\<close> (line 63), so no record is dropped.
\<close>

definition logger_debug :: "ext \<Rightarrow> logger_id \<Rightarrow> string \<Rightarrow> app \<Rightarrow> app" where
  "logger_debug x lg msg s = add_ws_event WS_EVENT_LOG (log_format x lg ''DEBUG'' msg) s"

definition logger_info :: "ext \<Rightarrow> logger_id \<Rightarrow> string \<Rightarrow> app \<Rightarrow> app" where
  "logger_info x lg msg s = add_ws_event WS_EVENT_LOG (log_format x lg ''INFO'' msg) s"

definition logger_exception :: "ext \<Rightarrow> logger_id \<Rightarrow> string \<Rightarrow> error \<Rightarrow> app \<Rightarrow> app" where
  "logger_exception x lg msg err s = add_ws_event WS_EVENT_LOG (log_format_exc x lg msg err) s"

section \<open>Engine lifecycle\<close>

text \<open>
  A call into the engine: it is recorded, the log lines it emits reach the log channel,
  and it returns or raises.
\<close>

definition call_engine :: "ext \<Rightarrow> engine_call \<Rightarrow> app \<Rightarrow> pyval result \<times> app" where
  "call_engine x c s =
     (let reply = engine x (engine_calls s) c;
          s1 = fold (add_ws_event WS_EVENT_LOG) (fst reply)
                 (s\<lparr> engine_calls := engine_calls s @ [c] \<rparr>)
      in case snd reply of
           Inl err \<Rightarrow> (Raise err, s1)
         | Inr v \<Rightarrow> (Return v, s1))"

text \<open>The engine instance a call is made on, if any.\<close>

fun call_target :: "engine_call \<Rightarrow> nat option" where
  "call_target ActorSystem = None"
| "call_target CreateActor = None"
| "call_target (RhasspyCore n) = Some n"
| "call_target (ProfileSet n key v) = Some n"
| "call_target (AskConfigure n) = Some n"
| "call_target (CoreStart n) = Some n"
| "call_target (CoreShutdown n) = Some n"
| "call_target (CheckProfile n) = Some n"
| "call_target (TranscribeWav n wav) = Some n"
| "call_target (StopRecordingWav n name) = Some n"
| "call_target (SpeakSentence n sentence) = Some n"
| "call_target (RecognizeIntent n text) = Some n"
| "call_target (HandleIntent n intent) = Some n"

text \<open>\<^verbatim>\<open>shutdown\<close> (lines 119-124), registered with \<^verbatim>\<open>atexit\<close>.\<close>

definition shutdown :: "ext \<Rightarrow> app \<Rightarrow> unit result \<times> app" where
  "shutdown x s =
     (case core s of
        None \<Rightarrow> (Return (), s)
      | Some c \<Rightarrow>
          then_do (call_engine x (CoreShutdown c) s) (\<lambda>_ s.
          (Return (), s\<lparr> core := None \<rparr>)))"

text \<open>
  The loop of \<^verbatim>\<open>start_rhasspy\<close> over \<^verbatim>\<open>args.set\<close> (lines 144-152) for the engine \<open>n\<close>: the
  value is parsed as JSON and kept as the string when that fails, logged, and set in the
  profile. (\<^verbatim>\<open>extra_settings\<close> is a local that is never read.)
\<close>

fun profile_settings :: "ext \<Rightarrow> nat \<Rightarrow> (string \<times> string) list \<Rightarrow> app \<Rightarrow> unit result \<times> app" where
  "profile_settings x n [] s = (Return (), s)"
| "profile_settings x n ((key, text) # rest) s =
     (let v = (case json_loads x text of None \<Rightarrow> PStr text | Some v \<Rightarrow> v);
          s1 = logger_debug x ModuleLogger (''Profile: '' @ key @ ''='' @ py_str x v) s
      in then_do (call_engine x (ProfileSet n key v) s1) (\<lambda>_ s.
         profile_settings x n rest s))"

text \<open>
  \<^verbatim>\<open>start_rhasspy\<close> (lines 127-159). The new engine object is \<open>next_engine\<close>; the global
  \<^verbatim>\<open>core\<close> is assigned as soon as the constructor has returned. Nothing reads \<^verbatim>\<open>core\<close>
  before that assignment.
\<close>

definition start_rhasspy :: "ext \<Rightarrow> app \<Rightarrow> unit result \<times> app" where
  "start_rhasspy x s =
     then_do (call_engine x ActorSystem s) (\<lambda>_ s.
     let n = next_engine s in
     then_do (call_engine x (RhasspyCore n) (s\<lparr> next_engine := Suc n \<rparr>)) (\<lambda>_ s.
     let s = s\<lparr> core := Some n \<rparr>;
         s = s\<lparr> environ := AList.update ''RHASSPY_BASE_DIR'' (getcwd x) (environ s) \<rparr>;
         s = s\<lparr> environ := AList.update ''RHASSPY_PROFILE'' (profile_name x n) (environ s) \<rparr>;
         s = s\<lparr> environ :=
                 AList.update ''RHASSPY_PROFILE_DIR'' (profile_write_dir x n) (environ s) \<rparr>
     in
     then_do (profile_settings x n (args_set x) s) (\<lambda>_ s.
     then_do (call_engine x CreateActor s) (\<lambda>_ s.
     then_do (call_engine x (AskConfigure n) s) (\<lambda>_ s.
     then_do (call_engine x (CoreStart n) s) (\<lambda>_ s.
     (Return (), logger_info x ModuleLogger ''Started'' s)))))))"

section \<open>HTTP handlers\<close>

text \<open>\<^verbatim>\<open>assert core is not None\<close>, which every view that reads the global executes before it.\<close>

definition assert_core :: "app \<Rightarrow> (nat \<Rightarrow> app \<Rightarrow> 'a result \<times> app) \<Rightarrow> 'a result \<times> app" where
  "assert_core s body =
     (case core s of
        None \<Rightarrow> (Raise AssertionError, s)
      | Some c \<Rightarrow> body c s)"

text \<open>\<^verbatim>\<open>str(err)\<close>: an \<^verbatim>\<open>assert\<close> without a message gives the empty string.\<close>

fun str_error :: "ext \<Rightarrow> error \<Rightarrow> string" where
  "str_error x AssertionError = ''''"
| "str_error x (KeyError k) = py_repr x k"
| "str_error x (TypeError msg) = msg"
| "str_error x (AttributeError msg) = msg"
| "str_error x (UnicodeDecodeError msg) = msg"
| "str_error x (Exception msg) = msg"

text \<open>\<^verbatim>\<open>handle_error\<close> (lines 791-794), the handler Flask calls for any exception.\<close>

definition handle_error :: "ext \<Rightarrow> error \<Rightarrow> app \<Rightarrow> (response \<times> int) \<times> app" where
  "handle_error x err s =
     ((Text (str_error x err), 500),
      logger_exception x ModuleLogger (str_error x err) err s)"

text \<open>
  A request as Flask serves it: the view's return value with status 200, or what
  \<^verbatim>\<open>handle_error\<close> returns when the view raises.
\<close>

definition serve :: "ext \<Rightarrow> (app \<Rightarrow> response result \<times> app) \<Rightarrow> app \<Rightarrow> (response \<times> int) \<times> app" where
  "serve x view s =
     (case view s of
        (Return r, s') \<Rightarrow> ((r, 200), s')
      | (Raise err, s') \<Rightarrow> handle_error x err s')"

text \<open>\<^verbatim>\<open>request.args.get(name, "false").lower() == "true"\<close>.\<close>

definition arg_is_true :: "ext \<Rightarrow> request \<Rightarrow> string \<Rightarrow> bool" where
  "arg_is_true x req name \<longleftrightarrow> py_lower x (request_arg req name ''false'') = ''true''"

text \<open>\<^verbatim>\<open>jsonify(obj)\<close>.\<close>

definition flask_jsonify :: "ext \<Rightarrow> pyval \<Rightarrow> response result" where
  "flask_jsonify x v = (case jsonify x v of Inl err \<Rightarrow> Raise err | Inr r \<Rightarrow> Return r)"

text \<open>\<^verbatim>\<open>len(obj)\<close>.\<close>

fun py_len :: "pyval \<Rightarrow> nat result" where
  "py_len (PList xs) = Return (length xs)"
| "py_len (PDict d) = Return (length d)"
| "py_len (PStr cs) = Return (length cs)"
| "py_len _ = Raise (TypeError ''object has no len()'')"

text \<open>
  \<^verbatim>\<open>api_profiles\<close> (lines 167-190). The scan of the profile directories touches only the
  file system; its result is \<open>list_profiles\<close>.
\<close>

definition api_profiles :: "ext \<Rightarrow> app \<Rightarrow> response result \<times> app" where
  "api_profiles x s =
     assert_core s (\<lambda>c s.
     then_do (call_engine x (CheckProfile c) s) (\<lambda>missing_files s.
     then_do (py_len missing_files, s) (\<lambda>n s.
     (flask_jsonify x (PDict
        [(PStr ''default_profile'', PStr (profile_name x c)),
         (PStr ''profiles'', PList (map PStr (list_profiles x))),
         (PStr ''downloaded'', PBool (n = 0)),
         (PStr ''missing_files'', missing_files)]), s))))"

text \<open>\<^verbatim>\<open>api_restart\<close> (lines 498-510): it stops the engine itself and does not call \<^verbatim>\<open>shutdown\<close>.\<close>

definition api_restart :: "ext \<Rightarrow> app \<Rightarrow> response result \<times> app" where
  "api_restart x s =
     assert_core s (\<lambda>c s.
     let s = logger_debug x ModuleLogger ''Restarting Rhasspy'' s in
     then_do (call_engine x (CoreShutdown c) s) (\<lambda>_ s.
     then_do (start_rhasspy x s) (\<lambda>_ s.
     let s = logger_info x ModuleLogger ''Restarted Rhasspy'' s in
     (Return (Text ''Restarted Rhasspy''), s))))"

text \<open>
  The tail shared by the three intent handlers (lines 549-557, 585-593, 629-637): dump,
  log, publish to the intent channel, then hand the intent to Home Assistant unless
  \<^verbatim>\<open>nohass\<close> is set.
\<close>

definition publish_and_handle :: "ext \<Rightarrow> nat \<Rightarrow> bool \<Rightarrow> pyval \<Rightarrow> app \<Rightarrow> response result \<times> app" where
  "publish_and_handle x c no_hass intent s =
     (case json_dumps x intent of
        Inl err \<Rightarrow> (Raise err, s)
      | Inr intent_json \<Rightarrow>
          let s = logger_debug x ModuleLogger intent_json s;
              s = add_ws_event WS_EVENT_INTENT intent_json s
          in if \<not> no_hass
             then then_do (call_engine x (HandleIntent c intent) s) (\<lambda>handled s.
                  then_do (py_getattr handled ''intent'', s) (\<lambda>intent s.
                  (flask_jsonify x intent, s)))
             else (flask_jsonify x intent, s))"

text \<open>\<^verbatim>\<open>api_text_to_intent\<close> (lines 534-557).\<close>

definition api_text_to_intent :: "ext \<Rightarrow> request \<Rightarrow> app \<Rightarrow> response result \<times> app" where
  "api_text_to_intent x req s =
     assert_core s (\<lambda>c s.
     case decode x (req_data req) of
       Inl err \<Rightarrow> (Raise err, s)
     | Inr text \<Rightarrow>
     let no_hass = arg_is_true x req ''nohass'' in
     then_do (call_engine x (RecognizeIntent c (PStr text)) s) (\<lambda>recognized s.
     then_do (py_getattr recognized ''intent'', s) (\<lambda>intent s.
     then_do (py_setitem intent ''speech_confidence'' (PInt 1), s) (\<lambda>intent s.
     then_do (py_setitem intent ''time_sec'' (PFloat (req_elapsed req)), s) (\<lambda>intent s.
     publish_and_handle x c no_hass intent s)))))"

text \<open>\<^verbatim>\<open>api_speech_to_intent\<close> (lines 563-593).\<close>

definition api_speech_to_intent :: "ext \<Rightarrow> request \<Rightarrow> app \<Rightarrow> response result \<times> app" where
  "api_speech_to_intent x req s =
     assert_core s (\<lambda>c s.
     let no_hass = arg_is_true x req ''nohass'';
         wav_data = req_data req
     in
     then_do (call_engine x (TranscribeWav c wav_data) s) (\<lambda>transcription s.
     then_do (py_getattr transcription ''text'', s) (\<lambda>text s.
     let s = logger_debug x ModuleLogger (py_str x text) s in
     then_do (call_engine x (RecognizeIntent c text) s) (\<lambda>recognized s.
     then_do (py_getattr recognized ''intent'', s) (\<lambda>intent s.
     then_do (py_getattr transcription ''confidence'', s) (\<lambda>confidence s.
     then_do (py_setitem intent ''speech_confidence'' confidence, s) (\<lambda>intent s.
     then_do (py_setitem intent ''time_sec'' (PFloat (req_elapsed req)), s) (\<lambda>intent s.
     publish_and_handle x c no_hass intent s))))))))"

text \<open>\<^verbatim>\<open>api_stop_recording\<close> (lines 610-637).\<close>

definition api_stop_recording :: "ext \<Rightarrow> request \<Rightarrow> app \<Rightarrow> response result \<times> app" where
  "api_stop_recording x req s =
     assert_core s (\<lambda>c s.
     let no_hass = arg_is_true x req ''nohass'';
         buffer_name = request_arg req ''name'' ''''
     in
     then_do (call_engine x (StopRecordingWav c buffer_name) s) (\<lambda>recorded s.
     then_do (py_getattr recorded ''data'', s) (\<lambda>audio_data s.
     case buffer_to_wav x audio_data of
       Inl err \<Rightarrow> (Raise err, s)
     | Inr wav_data \<Rightarrow>
     let s = logger_debug x ModuleLogger
               (''Recorded '' @ py_str x (PInt (int (length wav_data))) @ '' byte(s) of audio data'') s
     in
     then_do (call_engine x (TranscribeWav c wav_data) s) (\<lambda>transcription s.
     then_do (py_getattr transcription ''text'', s) (\<lambda>text s.
     let s = logger_debug x ModuleLogger (py_str x text) s in
     then_do (call_engine x (RecognizeIntent c text) s) (\<lambda>recognized s.
     then_do (py_getattr recognized ''intent'', s) (\<lambda>intent s.
     then_do (py_getattr transcription ''confidence'', s) (\<lambda>confidence s.
     then_do (py_setitem intent ''speech_confidence'' confidence, s) (\<lambda>intent s.
     publish_and_handle x c no_hass intent s)))))))))"

text \<open>
  \<^verbatim>\<open>api_text_to_speech\<close> (lines 667-680): the body is decoded before the \<^verbatim>\<open>assert\<close>, unless
  \<^verbatim>\<open>repeat\<close> is set.
\<close>

definition api_text_to_speech :: "ext \<Rightarrow> request \<Rightarrow> app \<Rightarrow> response result \<times> app" where
  "api_text_to_speech x req s =
     (let repeat = (py_lower x (py_strip x (request_arg req ''repeat'' ''false'')) = ''true'') in
      then_do (if repeat then (Return (last_sentence s), s)
               else (case decode x (req_data req) of
                       Inl err \<Rightarrow> (Raise err, s)
                     | Inr text \<Rightarrow> (Return (py_strip x text), s))) (\<lambda>sentence s.
      assert_core s (\<lambda>c s.
      then_do (call_engine x (SpeakSentence c sentence) s) (\<lambda>_ s.
      (Return (Text sentence), s\<lparr> last_sentence := sentence \<rparr>)))))"

text \<open>
  The statements of a view after its \<^verbatim>\<open>assert\<close>, where they are not modelled one by one: the
  calls they make into the engine are recorded and the log lines published.
\<close>

definition rest_of_view :: "ext \<Rightarrow> view \<Rightarrow> request \<Rightarrow> nat \<Rightarrow> app \<Rightarrow> response result \<times> app" where
  "rest_of_view x v req c s =
     (let effect = view_rest x v req c (engine_calls s)
      in (snd effect,
          fold (add_ws_event WS_EVENT_LOG) (snd (fst effect))
            (s\<lparr> engine_calls := engine_calls s @ fst (fst effect) \<rparr>)))"

text \<open>
  The 26 views. \<^verbatim>\<open>api_train\<close> (line 472) and \<^verbatim>\<open>api_speech_to_text\<close> (line 519) read a query
  argument before the \<^verbatim>\<open>assert\<close>; in every view of the last equation the \<^verbatim>\<open>assert\<close> is the
  first statement (lines 199, 212, 224, 235, 246, 257, 268, 279, 312, 329, 364, 387, 405,
  435, 602, 646, 688, 743).
\<close>

fun handler :: "ext \<Rightarrow> view \<Rightarrow> request \<Rightarrow> app \<Rightarrow> response result \<times> app" where
  "handler x ApiProfiles req s = api_profiles x s"
| "handler x ApiRestart req s = api_restart x s"
| "handler x ApiTextToIntent req s = api_text_to_intent x req s"
| "handler x ApiSpeechToIntent req s = api_speech_to_intent x req s"
| "handler x ApiStopRecording req s = api_stop_recording x req s"
| "handler x ApiTextToSpeech req s = api_text_to_speech x req s"
| "handler x ApiTrain req s =
     (let no_cache = arg_is_true x req ''nocache'' in
      assert_core s (\<lambda>c s. rest_of_view x ApiTrain req c s))"
| "handler x ApiSpeechToText req s =
     (let no_header = arg_is_true x req ''noheader'' in
      assert_core s (\<lambda>c s. rest_of_view x ApiSpeechToText req c s))"
| "handler x v req s = assert_core s (\<lambda>c s. rest_of_view x v req c s)"

section \<open>The observer\<close>

datatype message = IntentRecognized "(pyval \<times> pyval) list" | OtherMessage

text \<open>
  The loop of \<^verbatim>\<open>in_started\<close> (lines 884-886). In \<^verbatim>\<open>intent_slots[ev["entity"]] = ev["value"]\<close>
  Python evaluates the right-hand side first, then the key, then stores.
\<close>

fun intent_slots_loop :: "pyval list \<Rightarrow> (pyval \<times> pyval) list \<Rightarrow> (pyval \<times> pyval) list result" where
  "intent_slots_loop [] intent_slots = Return intent_slots"
| "intent_slots_loop (ev # evs) intent_slots =
     (case py_getitem ev ''value'' of
        Raise err \<Rightarrow> Raise err
      | Return v \<Rightarrow>
          (case py_getitem ev ''entity'' of
             Raise err \<Rightarrow> Raise err
           | Return k \<Rightarrow>
               if hashable k then intent_slots_loop evs (dict_set k v intent_slots)
               else Raise (TypeError ''unhashable type'')))"

text \<open>
  \<^verbatim>\<open>WebSocketObserver.in_started\<close> (lines 881-896). The intent dict of the message is changed
  in place; the changed dict is returned here beside the state. The log lines emitted
  while the ping of line 896 runs reach the log channel like any other.
\<close>

definition in_started :: "ext \<Rightarrow> message \<Rightarrow> app \<Rightarrow> (pyval \<times> pyval) list option result \<times> app" where
  "in_started x message s =
     (case message of
        OtherMessage \<Rightarrow> (Return None, s)
      | IntentRecognized intent \<Rightarrow>
          then_do (py_iter (case dict_get intent (PStr ''entities'') of
                              None \<Rightarrow> PList [] | Some v \<Rightarrow> v), s) (\<lambda>entities s.
          then_do (intent_slots_loop entities [], s) (\<lambda>intent_slots s.
          let intent = dict_set (PStr ''slots'') (PDict intent_slots) intent in
          case json_dumps x (PDict intent) of
            Inl err \<Rightarrow> (Raise err, s)
          | Inr intent_json \<Rightarrow>
              let s = logger_debug x ActorLogger intent_json s;
                  s = add_ws_event WS_EVENT_INTENT intent_json s;
                  s = fold (add_ws_event WS_EVENT_LOG) (fst (requests_get x)) s
              in case snd (requests_get x) of
                   Some err \<Rightarrow> (Raise err, s)
                 | None \<Rightarrow> (Return (Some intent), s))))"


text \<open>
  A structured entity as the engine reports it: a dict with a value under \<^verbatim>\<open>"value"\<close> and
  a hashable name under \<^verbatim>\<open>"entity"\<close>.
\<close>

fun entity_name :: "pyval \<Rightarrow> pyval option" where
  "entity_name (PDict d) = dict_get d (PStr ''entity'')"
| "entity_name _ = None"

fun entity_value :: "pyval \<Rightarrow> pyval option" where
  "entity_value (PDict d) = dict_get d (PStr ''value'')"
| "entity_value _ = None"

definition entity_ok :: "pyval \<Rightarrow> bool" where
  "entity_ok ev \<longleftrightarrow>
     entity_value ev \<noteq> None \<and>
     (case entity_name ev of None \<Rightarrow> False | Some k \<Rightarrow> hashable k)"

text \<open>
  What the claim says the slot of a name holds: the value of the last entity, in list
  order, that has this name; nothing when no entity has it.
\<close>

fun last_value :: "pyval \<Rightarrow> pyval list \<Rightarrow> pyval option" where
  "last_value k [] = None"
| "last_value k (ev # evs) =
     (case last_value k evs of
        Some v \<Rightarrow> Some v
      | None \<Rightarrow>
          (case entity_name ev of
             None \<Rightarrow> None
           | Some k' \<Rightarrow> if key_eq k' k then entity_value ev else None))"


section \<open>The running process\<close>

text \<open>
  What happens in the process, one thing at a time: the module starts the engine (line
  939), a request is served, the observer is notified, a websocket session begins or ends,
  the \<^verbatim>\<open>atexit\<close> hook runs. An exception ends the operation and leaves the state reached.
\<close>

datatype event =
    Started
  | Served view request
  | Notified message
  | Connected ws_event nat
  | Disconnected ws_event nat
  | Exited

fun step :: "ext \<Rightarrow> event \<Rightarrow> app \<Rightarrow> app" where
  "step x Started s = snd (start_rhasspy x s)"
| "step x (Served v req) s = snd (serve x (handler x v req) s)"
| "step x (Notified message) s = snd (in_started x message s)"
| "step x (Connected e ws) s = ws_register e ws s"
| "step x (Disconnected e ws) s = snd (ws_remove e ws s)"
| "step x Exited s = snd (shutdown x s)"

definition run :: "ext \<Rightarrow> event list \<Rightarrow> app \<Rightarrow> app" where
  "run x events s = fold (step x) events s"

text \<open>The engine the handle names was made before the next one to be made.\<close>

definition engine_fresh :: "app \<Rightarrow> bool" where
  "engine_fresh s \<longleftrightarrow> (case core s of None \<Rightarrow> True | Some c \<Rightarrow> c < next_engine s)"


section \<open>Relations between a state and a later one\<close>

text \<open>
  \<open>calls_only_on n s s'\<close>: between \<open>s\<close> and \<open>s'\<close> the engine was called zero or more times,
  and never on an instance other than \<open>n\<close>.
\<close>

definition calls_only_on :: "nat \<Rightarrow> app \<Rightarrow> app \<Rightarrow> bool" where
  "calls_only_on n s s' \<longleftrightarrow>
     (\<exists>new. engine_calls s' = engine_calls s @ new \<and>
            (\<forall>k \<in> set new. call_target k = None \<or> call_target k = Some n))"


text \<open>
  \<open>same_channels a b\<close>: the two states agree on everything the websocket channels consist
  of. \<open>logged s s'\<close>: as far as the channels go, \<open>s'\<close> is \<open>s\<close> after some log lines have been
  published, and nothing else.
\<close>

definition same_channels :: "app \<Rightarrow> app \<Rightarrow> bool" where
  "same_channels a b \<longleftrightarrow>
     ws_queues a = ws_queues b \<and> queues a = queues b \<and>
     next_queue a = next_queue b \<and> published a = published b"

definition logged :: "app \<Rightarrow> app \<Rightarrow> bool" where
  "logged s s' \<longleftrightarrow> (\<exists>lines. same_channels s' (fold (add_ws_event WS_EVENT_LOG) lines s))"


section \<open>An environment for the examples\<close>

text \<open>
  A concrete engine and library for the closed examples: no \<^verbatim>\<open>--set\<close> pair; an engine that
  never raises, logs one line when it starts and when it stops, echoes the text as the
  recognised intent, hears "on" in every recording and hands an intent back unchanged;
  \<^verbatim>\<open>json.dumps\<close> given on the values that occur in the examples; \<^verbatim>\<open>str\<close> given on strings
  and on the number 0; a decoder that refuses the single byte FF; a ping that logs one
  line; query arguments that are already lower case and stripped; a \<^verbatim>\<open>jsonify\<close> that never
  raises; and views that answer "OK" where their statements are not modelled.
\<close>

definition example_engine :: "engine_call list \<Rightarrow> engine_call \<Rightarrow> string list \<times> (error + pyval)" where
  "example_engine calls c =
     (case c of
        CoreStart n \<Rightarrow> ([''engine started''], Inr PNone)
      | CoreShutdown n \<Rightarrow> ([''engine stopped''], Inr PNone)
      | StopRecordingWav n name \<Rightarrow> ([], Inr (PDict [(PStr ''data'', PStr '''')]))
      | TranscribeWav n wav \<Rightarrow>
          ([], Inr (PDict [(PStr ''text'', PStr ''on''), (PStr ''confidence'', PInt 1)]))
      | RecognizeIntent n text \<Rightarrow> ([], Inr (PDict [(PStr ''intent'', PDict [(PStr ''text'', text)])]))
      | HandleIntent n intent \<Rightarrow> ([], Inr (PDict [(PStr ''intent'', intent)]))
      | _ \<Rightarrow> ([], Inr PNone))"

definition example_dumps :: "pyval \<Rightarrow> error + string" where
  "example_dumps v =
     (if v = PDict [(PStr ''text'', PStr ''on''), (PStr ''speech_confidence'', PInt 1),
                    (PStr ''time_sec'', PFloat (1 / 2))]
      then Inr ''{\"text\": \"on\", \"speech_confidence\": 1, \"time_sec\": 0.5}''
      else if v = PDict [(PStr ''text'', PStr ''on''), (PStr ''speech_confidence'', PInt 1)]
      then Inr ''{\"text\": \"on\", \"speech_confidence\": 1}''
      else if v = PDict [(PStr ''entities'',
                          PList [PDict [(PStr ''entity'', PStr ''color''), (PStr ''value'', PStr ''red'')],
                                 PDict [(PStr ''entity'', PStr ''color''), (PStr ''value'', PStr ''blue'')]]),
                         (PStr ''slots'', PDict [(PStr ''color'', PStr ''blue'')])]
      then Inr ''{\"entities\": [{\"entity\": \"color\", \"value\": \"red\"}, {\"entity\": \"color\", \"value\": \"blue\"}], \"slots\": {\"color\": \"blue\"}}''
      else Inl (TypeError ''not in the table''))"

definition example_ext :: ext where
  "example_ext =
     \<lparr> args_set = [], json_loads = (\<lambda>_. None), json_dumps = example_dumps,
       jsonify = (\<lambda>v. Inr (Json v)),
       py_str = (\<lambda>v. case v of PStr cs \<Rightarrow> cs | _ \<Rightarrow> ''0''), py_repr = (\<lambda>_. ''''),
       py_lower = (\<lambda>cs. cs), py_strip = (\<lambda>cs. cs),
       decode = (\<lambda>bytes. if bytes = [CHR 0xFF] then Inl (UnicodeDecodeError ''invalid start byte'')
                           else Inr bytes),
       log_format = (\<lambda>lg level msg. level @ '' '' @ msg),
       log_format_exc = (\<lambda>lg msg err. ''ERROR '' @ msg),
       getcwd = ''/'', profile_name = (\<lambda>_. ''en''), profile_write_dir = (\<lambda>_. ''/en''),
       list_profiles = [''en''], buffer_to_wav = (\<lambda>_. Inr ''''),
       requests_get = ([''DEBUG GET /api/ping''], None),
       engine = example_engine,
       view_rest = (\<lambda>v req c calls. (([], []), Return (Text ''OK''))) \<rparr>"

text \<open>The state when \<^verbatim>\<open>start_rhasspy()\<close> of line 939 has just returned.\<close>

definition running :: app where
  "running = snd (start_rhasspy example_ext initial)"


text \<open>The same environment with an engine whose stop sequence raises.\<close>

definition failing_engine :: "engine_call list \<Rightarrow> engine_call \<Rightarrow> string list \<times> (error + pyval)" where
  "failing_engine calls c =
     (case c of
        CoreShutdown n \<Rightarrow> ([], Inl (Exception ''stop failed''))
      | _ \<Rightarrow> example_engine calls c)"

definition failing_ext :: ext where
  "failing_ext = example_ext \<lparr> engine := failing_engine \<rparr>"

section \<open>Properties of the event channels\<close>

lemma fold_queue_put:
  "distinct qs \<Longrightarrow> fold (queue_put t) qs h q = (if q \<in> set qs then h q @ [t] else h q)"
  by (induction qs arbitrary: h) (auto simp: queue_put_def)

lemma update_values_subset: "snd ` set (AList.update k v al) \<subseteq> insert v (snd ` set al)"
  by (induction al) auto

lemma update_values_distinct:
  "distinct (map snd al) \<Longrightarrow> v \<notin> snd ` set al \<Longrightarrow> distinct (map snd (AList.update k v al))"
proof (induction al)
  case Nil then show ?case by simp
next
  case (Cons p al)
  have "snd ` set (AList.update k v al) \<subseteq> insert v (snd ` set al)" by (rule update_values_subset)
  with Cons show ?case by (cases p) (auto)
qed

lemma delete_values_subset: "snd ` set (AList.delete k al) \<subseteq> snd ` set al"
  by (auto simp: AList.delete_eq)

lemma delete_values_distinct: "distinct (map snd al) \<Longrightarrow> distinct (map snd (AList.delete k al))"
  by (simp add: AList.delete_eq distinct_map_filter)

lemma map_of_values: "map_of al k = Some v \<Longrightarrow> v \<in> snd ` set al"
  by (metis map_of_SomeD snd_conv image_eqI)

lemma chan_run_snoc:
  "chan_run (ops @ [op]) s =
     (case chan_run ops s of (Raise err, s') \<Rightarrow> (Raise err, s') | (Return _, s') \<Rightarrow> chan_step op s')"
  by (induction ops arbitrary: s) (auto split: prod.splits result.splits)

lemma fresh_not_registered:
  "queues_ok s \<Longrightarrow> next_queue s \<notin> snd ` set (ws_queues s e)"
  unfolding queues_ok_def by (metis less_irrefl)

lemma ws_queues_register:
  "ws_queues (ws_register e ws s) e' =
     (if e' = e then AList.update ws (next_queue s) (ws_queues s e) else ws_queues s e')"
  by (simp add: ws_register_def Let_def)

lemma next_queue_register: "next_queue (ws_register e ws s) = Suc (next_queue s)"
  by (simp add: ws_register_def Let_def)

lemma values_register:
  "snd ` set (ws_queues (ws_register e ws s) e') \<subseteq>
     (if e' = e then insert (next_queue s) (snd ` set (ws_queues s e)) else snd ` set (ws_queues s e'))"
  using update_values_subset[of ws "next_queue s" "ws_queues s e"]
  by (simp add: ws_queues_register del: image_iff)

lemma queues_ok_register:
  assumes ok: "queues_ok s" shows "queues_ok (ws_register e ws s)"
proof -
  let ?q = "next_queue s"
  let ?s' = "ws_register e ws s"
  have fresh: "?q \<notin> snd ` set (ws_queues s e')" for e'
    using ok by (rule fresh_not_registered)
  have old_d: "distinct (map snd (ws_queues s e'))" for e'
    using ok by (simp add: queues_ok_def)
  have b: "q < ?q" if "q \<in> snd ` set (ws_queues s e')" for e' q
    using ok that unfolding queues_ok_def by blast
  have dj: "snd ` set (ws_queues s e1) \<inter> snd ` set (ws_queues s e2) = {}" if "e1 \<noteq> e2" for e1 e2
    using ok that unfolding queues_ok_def by blast
  have 1: "distinct (map snd (ws_queues ?s' e'))" for e'
  proof (cases "e' = e")
    case True
    have "distinct (map snd (AList.update ws ?q (ws_queues s e)))"
      using old_d[of e] fresh[of e] by (rule update_values_distinct)
    with True show ?thesis by (simp add: ws_queues_register)
  next
    case False
    with old_d[of e'] show ?thesis by (simp add: ws_queues_register)
  qed
  have 2: "q < next_queue ?s'" if q: "q \<in> snd ` set (ws_queues ?s' e')" for e' q
  proof -
    from q values_register[of e ws s e'] have "q = ?q \<or> q \<in> snd ` set (ws_queues s e) \<or> q \<in> snd ` set (ws_queues s e')"
      by (cases "e' = e") (auto simp del: image_iff)
    then have "q \<le> ?q" using b[of q e] b[of q e'] by (elim disjE) simp_all
    then show ?thesis by (simp add: next_queue_register)
  qed
  have 3: "snd ` set (ws_queues ?s' e1) \<inter> snd ` set (ws_queues ?s' e2) = {}" if ne: "e1 \<noteq> e2" for e1 e2
  proof (rule ccontr)
    assume "\<not> ?thesis"
    then obtain q where q1: "q \<in> snd ` set (ws_queues ?s' e1)" and q2: "q \<in> snd ` set (ws_queues ?s' e2)"
      by blast
    show False
    proof (cases "e1 = e")
      case True
      then have e2: "e2 \<noteq> e" using ne by simp
      from q2 e2 have a2: "q \<in> snd ` set (ws_queues s e2)" by (simp add: ws_queues_register del: image_iff)
      from q1 True values_register[of e ws s e1] have "q = ?q \<or> q \<in> snd ` set (ws_queues s e)"
        by (auto simp del: image_iff)
      then show False
      proof
        assume "q = ?q" with a2 fresh[of e2] show False by simp
      next
        assume "q \<in> snd ` set (ws_queues s e)"
        with a2 dj[of e e2] e2 show False by blast
      qed
    next
      case False
      from q1 False have a1: "q \<in> snd ` set (ws_queues s e1)" by (simp add: ws_queues_register del: image_iff)
      show False
      proof (cases "e2 = e")
        case True
        from q2 True values_register[of e ws s e2] have "q = ?q \<or> q \<in> snd ` set (ws_queues s e)"
          by (auto simp del: image_iff)
        then show False
        proof
          assume "q = ?q" with a1 fresh[of e1] show False by simp
        next
          assume "q \<in> snd ` set (ws_queues s e)"
          with a1 dj[of e1 e] False show False by blast
        qed
      next
        case e2: False
        from q2 e2 have "q \<in> snd ` set (ws_queues s e2)" by (simp add: ws_queues_register del: image_iff)
        with a1 dj[of e1 e2] ne show False by blast
      qed
    qed
  qed
  show ?thesis unfolding queues_ok_def using 1 2 3 by blast
qed

lemma ws_queues_remove:
  "ws_remove e ws s = (Return u, s') \<Longrightarrow>
     ws_queues s' e' = (if e' = e then AList.delete ws (ws_queues s e) else ws_queues s e')"
  by (auto simp: ws_remove_def split: if_splits)

lemma next_queue_remove: "ws_remove e ws s = (Return u, s') \<Longrightarrow> next_queue s' = next_queue s"
  by (auto simp: ws_remove_def split: if_splits)

lemma values_remove:
  assumes r: "ws_remove e ws s = (Return u, s')"
  shows "snd ` set (ws_queues s' e') \<subseteq> snd ` set (ws_queues s e')"
proof (cases "e' = e")
  case True
  then show ?thesis
    using delete_values_subset[of ws "ws_queues s e"] by (simp add: ws_queues_remove[OF r])
next
  case False
  then show ?thesis by (simp add: ws_queues_remove[OF r])
qed

lemma queues_ok_remove:
  assumes ok: "queues_ok s" and r: "ws_remove e ws s = (Return u, s')" shows "queues_ok s'"
proof -
  have 1: "distinct (map snd (ws_queues s' e'))" for e'
  proof (cases "e' = e")
    case True
    have "distinct (map snd (ws_queues s e))" using ok by (simp add: queues_ok_def)
    then have "distinct (map snd (AList.delete ws (ws_queues s e)))" by (rule delete_values_distinct)
    with True show ?thesis by (simp add: ws_queues_remove[OF r])
  next
    case False
    have "distinct (map snd (ws_queues s e'))" using ok by (simp add: queues_ok_def)
    with False show ?thesis by (simp add: ws_queues_remove[OF r])
  qed
  have 2: "q < next_queue s'" if q: "q \<in> snd ` set (ws_queues s' e')" for e' q
  proof -
    from q values_remove[OF r, of e'] have "q \<in> snd ` set (ws_queues s e')" by (rule rev_subsetD)
    then have "q < next_queue s" using ok unfolding queues_ok_def by blast
    then show ?thesis by (simp only: next_queue_remove[OF r])
  qed
  have 3: "snd ` set (ws_queues s' e1) \<inter> snd ` set (ws_queues s' e2) = {}" if ne: "e1 \<noteq> e2" for e1 e2
  proof -
    have "snd ` set (ws_queues s e1) \<inter> snd ` set (ws_queues s e2) = {}"
      using ok ne unfolding queues_ok_def by blast
    with values_remove[OF r, of e1] values_remove[OF r, of e2] show ?thesis by blast
  qed
  show ?thesis unfolding queues_ok_def using 1 2 3 by blast
qed

lemma queues_ok_publish: "queues_ok s \<Longrightarrow> queues_ok (add_ws_event e t s)"
  by (simp add: queues_ok_def add_ws_event_def)

lemma queues_ok_step: "queues_ok s \<Longrightarrow> chan_step op s = (Return u, s') \<Longrightarrow> queues_ok s'"
  by (cases op) (auto simp: queues_ok_register queues_ok_publish dest: queues_ok_remove)

lemma mailbox_register:
  assumes ok: "queues_ok s"
  shows "mailbox (ws_register e ws s) e' ws' =
           (if e' = e \<and> ws' = ws then Some [] else mailbox s e' ws')"
proof -
  have fresh: "\<And>e'. next_queue s \<notin> snd ` set (ws_queues s e')"
    using ok by (rule fresh_not_registered)
  have ne: "\<And>q. map_of (ws_queues s e') ws' = Some q \<Longrightarrow> q \<noteq> next_queue s"
    using fresh[of e'] map_of_values by fastforce
  show ?thesis
    using ne by (cases "map_of (ws_queues s e') ws'")
      (auto simp: mailbox_def ws_register_def Let_def update_conv')
qed

lemma mailbox_remove:
  assumes r: "ws_remove e ws s = (Return u, s')"
  shows "mailbox s' e' ws' = (if e' = e \<and> ws' = ws then None else mailbox s e' ws')"
  using r by (auto simp: ws_remove_def mailbox_def delete_conv' split: if_splits)

lemma mailbox_publish:
  assumes ok: "queues_ok s"
  shows "mailbox (add_ws_event e t s) e' ws' =
           (if e' = e then map_option (\<lambda>msgs. msgs @ [t]) (mailbox s e' ws') else mailbox s e' ws')"
proof (cases "map_of (ws_queues s e') ws'")
  case None then show ?thesis by (auto simp: mailbox_def add_ws_event_def)
next
  case (Some q)
  then have q: "q \<in> snd ` set (ws_queues s e')" by (rule map_of_values)
  have d: "distinct (map snd (ws_queues s e))" using ok by (simp add: queues_ok_def)
  have dj: "e' \<noteq> e \<Longrightarrow> q \<notin> snd ` set (ws_queues s e)"
    using ok q unfolding queues_ok_def by blast
  show ?thesis using Some q d dj
    by (auto simp: mailbox_def add_ws_event_def fold_queue_put simp del: image_iff)
qed

lemma received_snoc_step:
  assumes ok: "queues_ok s" and st: "chan_step op s = (Return u, s')"
    and mb: "mailbox s e ws = received_rev e ws earlier"
  shows "mailbox s' e ws = received_rev e ws (op # earlier)"
  using ok st mb
  by (cases op) (auto simp: mailbox_register mailbox_publish mailbox_remove)

lemma queues_ok_initial: "queues_ok initial"
  by (simp add: queues_ok_def initial_def)

lemma chan_run_refines:
  "chan_run ops initial = (Return u, s) \<Longrightarrow> queues_ok s \<and> (\<forall>e ws. mailbox s e ws = received e ws ops)"
proof (induction ops arbitrary: s u rule: rev_induct)
  case Nil
  then have "s = initial" by simp
  then show ?case by (simp add: queues_ok_initial received_def mailbox_def) (simp add: initial_def)
next
  case (snoc op ops)
  from snoc.prems obtain u' s0 where r0: "chan_run ops initial = (Return u', s0)"
    and st: "chan_step op s0 = (Return u, s)"
    by (auto simp: chan_run_snoc split: prod.splits result.splits)
  from snoc.IH[OF r0] have ok: "queues_ok s0" and mb: "\<And>e ws. mailbox s0 e ws = received e ws ops" by auto
  have "queues_ok s" using ok st by (rule queues_ok_step)
  moreover have "mailbox s e ws = received e ws (ops @ [op])" for e ws
    using received_snoc_step[OF ok st, of e ws "rev ops"] mb[of e ws]
    by (simp add: received_def)
  ultimately show ?case by blast
qed


text \<open>
  C1. Start from the initial state and run any sequence of subscribe, unsubscribe and
  publish operations, on either channel, that raises nothing. Then the queue registered
  for a websocket holds exactly the messages published to its channel since that
  websocket's latest registration, each once and in publish order, and a websocket that is
  not registered has no queue (so nothing published before a registration, after an
  unsubscription, or to the other channel ever reaches it). Moreover a further publish adds
  the message once to every queue object registered in that channel and leaves every other
  queue object as it was.
\<close>

theorem subscribers_receive_exactly_once:
  assumes "chan_run ops initial = (Return u, s)"
  shows "mailbox s e ws = received e ws ops \<and>
         queues (add_ws_event e' text s) q =
           (if q \<in> snd ` set (ws_queues s e') then queues s q @ [text] else queues s q)"
proof -
  from chan_run_refines[OF assms] have ok: "queues_ok s"
    and mb: "mailbox s e ws = received e ws ops" by auto
  have "distinct (map snd (ws_queues s e'))" using ok by (simp add: queues_ok_def)
  then have "queues (add_ws_event e' text s) q =
           (if q \<in> snd ` set (ws_queues s e') then queues s q @ [text] else queues s q)"
    by (simp add: add_ws_event_def fold_queue_put del: image_iff)
  with mb show ?thesis by blast
qed

theorem subscribers_receive_exactly_once_witness:
  "fst (chan_run [Subscribe WS_EVENT_INTENT 1, Subscribe WS_EVENT_INTENT 2,
         Subscribe WS_EVENT_LOG 3, Publish WS_EVENT_INTENT ''TurnOn'',
         Unsubscribe WS_EVENT_INTENT 1, Publish WS_EVENT_INTENT ''TurnOff'',
         Subscribe WS_EVENT_INTENT 4] initial) = Return () \<and>
   map (mailbox (snd (chan_run [Subscribe WS_EVENT_INTENT 1, Subscribe WS_EVENT_INTENT 2,
         Subscribe WS_EVENT_LOG 3, Publish WS_EVENT_INTENT ''TurnOn'',
         Unsubscribe WS_EVENT_INTENT 1, Publish WS_EVENT_INTENT ''TurnOff'',
         Subscribe WS_EVENT_INTENT 4] initial)) WS_EVENT_INTENT) [1, 2, 4]
     = [None, Some [''TurnOn'', ''TurnOff''], Some []] \<and>
   mailbox (snd (chan_run [Subscribe WS_EVENT_INTENT 1, Subscribe WS_EVENT_INTENT 2,
         Subscribe WS_EVENT_LOG 3, Publish WS_EVENT_INTENT ''TurnOn'',
         Unsubscribe WS_EVENT_INTENT 1, Publish WS_EVENT_INTENT ''TurnOff'',
         Subscribe WS_EVENT_INTENT 4] initial)) WS_EVENT_LOG 3 = Some []"
proof -
  let ?ops = "[Subscribe WS_EVENT_INTENT 1, Subscribe WS_EVENT_INTENT 2,
         Subscribe WS_EVENT_LOG 3, Publish WS_EVENT_INTENT ''TurnOn'',
         Unsubscribe WS_EVENT_INTENT 1, Publish WS_EVENT_INTENT ''TurnOff'',
         Subscribe WS_EVENT_INTENT 4]"
  have r: "fst (chan_run ?ops initial) = Return ()"
    by (simp add: initial_def ws_register_def ws_remove_def add_ws_event_def queue_put_def
        Let_def AList.delete_eq)
  then have h: "chan_run ?ops initial = (Return (), snd (chan_run ?ops initial))"
    by (metis prod.collapse)
  have "received WS_EVENT_INTENT 1 ?ops = None"
    and "received WS_EVENT_INTENT 2 ?ops = Some [''TurnOn'', ''TurnOff'']"
    and "received WS_EVENT_INTENT 4 ?ops = Some []"
    and "received WS_EVENT_LOG 3 ?ops = Some []"
    by (simp_all add: received_def)
  with r subscribers_receive_exactly_once[OF h, of WS_EVENT_INTENT 1]
    subscribers_receive_exactly_once[OF h, of WS_EVENT_INTENT 2]
    subscribers_receive_exactly_once[OF h, of WS_EVENT_INTENT 4]
    subscribers_receive_exactly_once[OF h, of WS_EVENT_LOG 3]
  show ?thesis by simp
qed

section \<open>Properties of the engine lifecycle\<close>

lemma add_ws_event_frame [simp]:
  "core (add_ws_event e t s) = core s"
  "engine_calls (add_ws_event e t s) = engine_calls s"
  "next_engine (add_ws_event e t s) = next_engine s"
  "environ (add_ws_event e t s) = environ s"
  "ws_queues (add_ws_event e t s) = ws_queues s"
  "next_queue (add_ws_event e t s) = next_queue s"
  by (simp_all add: add_ws_event_def)

lemma fold_add_ws_event_frame [simp]:
  "core (fold (add_ws_event e) ls s) = core s"
  "engine_calls (fold (add_ws_event e) ls s) = engine_calls s"
  "next_engine (fold (add_ws_event e) ls s) = next_engine s"
  "environ (fold (add_ws_event e) ls s) = environ s"
  "ws_queues (fold (add_ws_event e) ls s) = ws_queues s"
  "next_queue (fold (add_ws_event e) ls s) = next_queue s"
  by (induction ls arbitrary: s; simp)+

lemma logger_frame [simp]:
  "core (logger_debug x lg m s) = core s"
  "engine_calls (logger_debug x lg m s) = engine_calls s"
  "next_engine (logger_debug x lg m s) = next_engine s"
  "ws_queues (logger_debug x lg m s) = ws_queues s"
  "next_queue (logger_debug x lg m s) = next_queue s"
  "core (logger_info x lg m s) = core s"
  "engine_calls (logger_info x lg m s) = engine_calls s"
  "next_engine (logger_info x lg m s) = next_engine s"
  "ws_queues (logger_info x lg m s) = ws_queues s"
  "next_queue (logger_info x lg m s) = next_queue s"
  "core (logger_exception x lg m err s) = core s"
  "engine_calls (logger_exception x lg m err s) = engine_calls s"
  "next_engine (logger_exception x lg m err s) = next_engine s"
  "ws_queues (logger_exception x lg m err s) = ws_queues s"
  "next_queue (logger_exception x lg m err s) = next_queue s"
  by (simp_all add: logger_debug_def logger_info_def logger_exception_def)

lemma call_engine_frame [simp]:
  "core (snd (call_engine x c s)) = core s"
  "engine_calls (snd (call_engine x c s)) = engine_calls s @ [c]"
  "next_engine (snd (call_engine x c s)) = next_engine s"
  "ws_queues (snd (call_engine x c s)) = ws_queues s"
  "next_queue (snd (call_engine x c s)) = next_queue s"
  by (simp_all add: call_engine_def Let_def split: sum.splits)

lemma call_engine_result:
  "fst (call_engine x c s) =
     (case snd (engine x (engine_calls s) c) of Inl err \<Rightarrow> Raise err | Inr v \<Rightarrow> Return v)"
  by (simp add: call_engine_def Let_def split: sum.splits)

lemma then_do_Raise: "fst m = Raise err \<Longrightarrow> then_do m f = (Raise err, snd m)"
  by (cases m) (simp add: then_do_def)

lemma then_do_Return: "fst m = Return v \<Longrightarrow> then_do m f = f v (snd m)"
  by (cases m) (simp add: then_do_def)

lemma shutdown_None: "core s = None \<Longrightarrow> shutdown x s = (Return (), s)"
  by (simp add: shutdown_def)

lemma shutdown_Some_cases:
  assumes "core s = Some c"
  shows "(\<exists>err. fst (shutdown x s) = Raise err \<and> snd (engine x (engine_calls s) (CoreShutdown c)) = Inl err
            \<and> core (snd (shutdown x s)) = Some c) \<or>
         (fst (shutdown x s) = Return () \<and> (\<exists>v. snd (engine x (engine_calls s) (CoreShutdown c)) = Inr v)
            \<and> core (snd (shutdown x s)) = None)"
    and "engine_calls (snd (shutdown x s)) = engine_calls s @ [CoreShutdown c]"
proof -
  let ?m = "call_engine x (CoreShutdown c) s"
  show "engine_calls (snd (shutdown x s)) = engine_calls s @ [CoreShutdown c]"
    using assms by (cases "fst ?m") (simp_all add: shutdown_def then_do_Raise then_do_Return)
  show "(\<exists>err. fst (shutdown x s) = Raise err \<and> snd (engine x (engine_calls s) (CoreShutdown c)) = Inl err
            \<and> core (snd (shutdown x s)) = Some c) \<or>
         (fst (shutdown x s) = Return () \<and> (\<exists>v. snd (engine x (engine_calls s) (CoreShutdown c)) = Inr v)
            \<and> core (snd (shutdown x s)) = None)"
  proof (cases "snd (engine x (engine_calls s) (CoreShutdown c))")
    case (Inl err)
    then have "fst ?m = Raise err" by (simp add: call_engine_result)
    with assms Inl show ?thesis by (simp add: shutdown_def then_do_Raise)
  next
    case (Inr v)
    then have "fst ?m = Return v" by (simp add: call_engine_result)
    with assms Inr show ?thesis by (simp add: shutdown_def then_do_Return)
  qed
qed

lemmas example_eval = start_rhasspy_def call_engine_def then_do_def Let_def example_ext_def
  example_engine_def initial_def add_ws_event_def logger_info_def logger_debug_def shutdown_def
  failing_ext_def failing_engine_def

lemma running_eval:
  "core running = Some 0" "next_engine running = 1"
  "engine_calls running = [ActorSystem, RhasspyCore 0, CreateActor, AskConfigure 0, CoreStart 0]"
  "ws_queues running = (\<lambda>_. [])" "next_queue running = 0"
  "published running = [(WS_EVENT_LOG, ''engine started''), (WS_EVENT_LOG, ''INFO Started'')]"
  by (simp_all add: running_def example_eval)

lemma api_restart_stop_raises:
  assumes c: "core s = Some c" and e: "snd (engine x (engine_calls s) (CoreShutdown c)) = Inl err"
  shows "fst (api_restart x s) = Raise err" "core (snd (api_restart x s)) = Some c"
    "engine_calls (snd (api_restart x s)) = engine_calls s @ [CoreShutdown c]"
proof -
  let ?s1 = "logger_debug x ModuleLogger ''Restarting Rhasspy'' s"
  have "fst (call_engine x (CoreShutdown c) ?s1) = Raise err"
    using e by (simp add: call_engine_result)
  then have "api_restart x s = (Raise err, snd (call_engine x (CoreShutdown c) ?s1))"
    using c by (simp add: api_restart_def assert_core_def then_do_Raise)
  then show "fst (api_restart x s) = Raise err" "core (snd (api_restart x s)) = Some c"
    "engine_calls (snd (api_restart x s)) = engine_calls s @ [CoreShutdown c]"
    using c by simp_all
qed

text \<open>
  C3, as the claim states it, fails: when \<^verbatim>\<open>core.shutdown()\<close> raises, the handle is not
  cleared, and a second \<^verbatim>\<open>shutdown()\<close> (the \<^verbatim>\<open>atexit\<close> hook, say) calls the engine's stop
  sequence a second time.
\<close>

theorem shutdown_twice_after_failure_counterexample:
  "core running = Some 0 \<and>
   fst (shutdown failing_ext running) = Raise (Exception ''stop failed'') \<and>
   engine_calls (snd (shutdown failing_ext (snd (shutdown failing_ext running)))) =
     engine_calls running @ [CoreShutdown 0, CoreShutdown 0]"
  by (simp add: running_eval shutdown_def then_do_def call_engine_def Let_def failing_ext_def
      failing_engine_def)

text \<open>
  C3, amended. With a null handle \<^verbatim>\<open>shutdown\<close> is a no-op. With an engine \<open>c\<close>, a call of
  \<^verbatim>\<open>shutdown\<close> calls \<^verbatim>\<open>core.shutdown()\<close> once. When it returns, the handle is null and a
  second call of \<^verbatim>\<open>shutdown\<close> (the normal flow, or the \<^verbatim>\<open>atexit\<close> hook) changes nothing and
  calls nothing: the stop sequence has run once. When it raises, the handle still names
  \<open>c\<close>, and a second call of \<^verbatim>\<open>shutdown\<close> calls the stop sequence of \<open>c\<close> again.
\<close>

theorem shutdown_idempotent_once_returned:
  "(core s = None \<longrightarrow> shutdown x s = (Return (), s)) \<and>
   (core s = Some c \<and> fst (shutdown x s) = Return () \<longrightarrow>
      core (snd (shutdown x s)) = None \<and>
      engine_calls (snd (shutdown x s)) = engine_calls s @ [CoreShutdown c] \<and>
      shutdown x (snd (shutdown x s)) = (Return (), snd (shutdown x s))) \<and>
   (core s = Some c \<and> fst (shutdown x s) = Raise err \<longrightarrow>
      core (snd (shutdown x s)) = Some c \<and>
      engine_calls (snd (shutdown x s)) = engine_calls s @ [CoreShutdown c] \<and>
      engine_calls (snd (shutdown x (snd (shutdown x s)))) =
        engine_calls s @ [CoreShutdown c, CoreShutdown c])"
proof (intro conjI impI)
  assume "core s = None" then show "shutdown x s = (Return (), s)" by (rule shutdown_None)
next
  assume a: "core s = Some c \<and> fst (shutdown x s) = Return ()"
  then have c: "core s = Some c" and r: "fst (shutdown x s) = Return ()" by auto
  from shutdown_Some_cases(1)[OF c, of x] r show n: "core (snd (shutdown x s)) = None" by auto
  show "engine_calls (snd (shutdown x s)) = engine_calls s @ [CoreShutdown c]"
    by (rule shutdown_Some_cases(2)[OF c])
  from n show "shutdown x (snd (shutdown x s)) = (Return (), snd (shutdown x s))" by (rule shutdown_None)
next
  assume a: "core s = Some c \<and> fst (shutdown x s) = Raise err"
  then have c: "core s = Some c" and r: "fst (shutdown x s) = Raise err" by auto
  from shutdown_Some_cases(1)[OF c, of x] r show k: "core (snd (shutdown x s)) = Some c" by auto
  show e: "engine_calls (snd (shutdown x s)) = engine_calls s @ [CoreShutdown c]"
    by (rule shutdown_Some_cases(2)[OF c])
  from shutdown_Some_cases(2)[OF k, of x] e
  show "engine_calls (snd (shutdown x (snd (shutdown x s)))) =
        engine_calls s @ [CoreShutdown c, CoreShutdown c]" by simp
qed

theorem shutdown_idempotent_once_returned_witness:
  "core initial = None \<and> shutdown example_ext initial = (Return (), initial) \<and>
   core running = Some 0 \<and> fst (shutdown example_ext running) = Return () \<and>
   core (snd (shutdown example_ext running)) = None \<and>
   engine_calls (snd (shutdown example_ext running)) = engine_calls running @ [CoreShutdown 0] \<and>
   shutdown example_ext (snd (shutdown example_ext running)) =
     (Return (), snd (shutdown example_ext running)) \<and>
   fst (shutdown failing_ext running) = Raise (Exception ''stop failed'') \<and>
   core (snd (shutdown failing_ext running)) = Some 0 \<and>
   engine_calls (snd (shutdown failing_ext (snd (shutdown failing_ext running)))) =
     engine_calls running @ [CoreShutdown 0, CoreShutdown 0]"
proof -
  have n: "core initial = None" by (simp add: initial_def)
  have c: "core running = Some 0" by (rule running_eval)
  have r: "fst (shutdown example_ext running) = Return ()"
    by (simp add: shutdown_def c then_do_def call_engine_def Let_def example_ext_def example_engine_def)
  have f: "fst (shutdown failing_ext running) = Raise (Exception ''stop failed'')"
    by (simp add: shutdown_def c then_do_def call_engine_def Let_def failing_ext_def failing_engine_def)
  from n c r f shutdown_idempotent_once_returned[of initial example_ext 0 "Exception ''stop failed''"]
    shutdown_idempotent_once_returned[of running example_ext 0 "Exception ''stop failed''"]
    shutdown_idempotent_once_returned[of running failing_ext 0 "Exception ''stop failed''"]
  show ?thesis by simp
qed

text \<open>
  C7, as the claim states it, fails: when \<^verbatim>\<open>core.shutdown()\<close> raises inside \<^verbatim>\<open>shutdown\<close>,
  the assignment \<^verbatim>\<open>core = None\<close> is not reached and the handle still names the engine.
\<close>

theorem shutdown_failure_keeps_core_counterexample:
  "core running = Some 0 \<and>
   fst (shutdown failing_ext running) = Raise (Exception ''stop failed'') \<and>
   core (snd (shutdown failing_ext running)) = Some 0"
  by (simp add: running_eval shutdown_def then_do_def call_engine_def Let_def failing_ext_def failing_engine_def)


text \<open>
  C7, amended. The handle is cleared exactly when \<^verbatim>\<open>core.shutdown()\<close> returns. When it
  raises, the exception leaves \<^verbatim>\<open>shutdown\<close> with the handle still naming the same engine;
  in \<^verbatim>\<open>api_restart\<close> the same exception ends the request before \<^verbatim>\<open>start_rhasspy\<close>, again
  with the handle unchanged.
\<close>

theorem shutdown_clears_core_only_on_return:
  assumes "core s = Some c"
  shows "(snd (engine x (engine_calls s) (CoreShutdown c)) = Inl err \<longrightarrow>
            fst (shutdown x s) = Raise err \<and> core (snd (shutdown x s)) = Some c \<and>
            fst (api_restart x s) = Raise err \<and> core (snd (api_restart x s)) = Some c \<and>
            engine_calls (snd (api_restart x s)) = engine_calls s @ [CoreShutdown c]) \<and>
         (snd (engine x (engine_calls s) (CoreShutdown c)) = Inr v \<longrightarrow>
            fst (shutdown x s) = Return () \<and> core (snd (shutdown x s)) = None)"
  using shutdown_Some_cases(1)[OF assms, of x] api_restart_stop_raises[OF assms, of x err]
  by auto

theorem shutdown_clears_core_only_on_return_witness:
  "core running = Some 0 \<and>
   snd (engine failing_ext (engine_calls running) (CoreShutdown 0)) = Inl (Exception ''stop failed'') \<and>
   fst (api_restart failing_ext running) = Raise (Exception ''stop failed'') \<and>
   core (snd (api_restart failing_ext running)) = Some 0 \<and>
   snd (engine example_ext (engine_calls running) (CoreShutdown 0)) = Inr PNone \<and>
   fst (shutdown example_ext running) = Return () \<and>
   core (snd (shutdown example_ext running)) = None"
proof -
  have c: "core running = Some 0" by (rule running_eval)
  have f: "snd (engine failing_ext (engine_calls running) (CoreShutdown 0)) = Inl (Exception ''stop failed'')"
    by (simp add: failing_ext_def failing_engine_def)
  have g: "snd (engine example_ext (engine_calls running) (CoreShutdown 0)) = Inr PNone"
    by (simp add: example_ext_def example_engine_def)
  from c f g shutdown_clears_core_only_on_return[OF c, of failing_ext "Exception ''stop failed''" PNone]
    shutdown_clears_core_only_on_return[OF c, of example_ext "Exception ''stop failed''" PNone]
  show ?thesis by simp
qed

section \<open>Starting while an engine is running\<close>

lemma then_do_fst:
  "fst (then_do m f) = (case fst m of Raise err \<Rightarrow> Raise err | Return v \<Rightarrow> fst (f v (snd m)))"
  by (cases m) (simp add: then_do_def split: result.splits)

lemma then_do_snd:
  "snd (then_do m f) = (case fst m of Raise err \<Rightarrow> snd m | Return v \<Rightarrow> snd (f v (snd m)))"
  by (cases m) (simp add: then_do_def split: result.splits)

lemma calls_only_on_refl: "engine_calls s' = engine_calls s \<Longrightarrow> calls_only_on n s s'"
  by (simp add: calls_only_on_def)

lemma calls_only_on_trans:
  "calls_only_on n s s1 \<Longrightarrow> calls_only_on n s1 s2 \<Longrightarrow> calls_only_on n s s2"
  unfolding calls_only_on_def by (elim exE conjE) (rule_tac x="new @ newa" in exI, auto)

lemma calls_only_on_call:
  "call_target c = None \<or> call_target c = Some n \<Longrightarrow> calls_only_on n s (snd (call_engine x c s))"
  by (simp add: calls_only_on_def)

lemma calls_only_on_then_do:
  assumes "calls_only_on n s (snd m)"
    and "\<And>v. fst m = Return v \<Longrightarrow> calls_only_on n (snd m) (snd (f v (snd m)))"
  shows "calls_only_on n s (snd (then_do m f))"
proof (cases "fst m")
  case (Return v)
  with assms(2)[OF Return] assms(1) show ?thesis
    by (simp add: then_do_snd) (rule calls_only_on_trans)
next
  case (Raise err)
  with assms(1) show ?thesis by (simp add: then_do_snd)
qed

lemma profile_settings_core [simp]: "core (snd (profile_settings x n kvs s)) = core s"
  by (induction x n kvs s rule: profile_settings.induct)
    (simp_all add: then_do_snd Let_def split: result.splits)

lemma profile_settings_next_engine [simp]:
  "next_engine (snd (profile_settings x n kvs s)) = next_engine s"
  by (induction x n kvs s rule: profile_settings.induct)
    (simp_all add: then_do_snd Let_def split: result.splits)

lemma profile_settings_ws_queues [simp]:
  "ws_queues (snd (profile_settings x n kvs s)) = ws_queues s"
  by (induction x n kvs s rule: profile_settings.induct)
    (simp_all add: then_do_snd Let_def split: result.splits)

lemma profile_settings_next_queue [simp]:
  "next_queue (snd (profile_settings x n kvs s)) = next_queue s"
  by (induction x n kvs s rule: profile_settings.induct)
    (simp_all add: then_do_snd Let_def split: result.splits)

lemma profile_settings_calls: "calls_only_on n s (snd (profile_settings x n kvs s))"
proof (induction x n kvs s rule: profile_settings.induct)
  case (1 x n s)
  then show ?case by (simp add: calls_only_on_refl)
next
  case (2 x n key raw rest s)
  show ?case
    unfolding profile_settings.simps Let_def
    apply (rule calls_only_on_then_do)
     apply (rule calls_only_on_trans[OF calls_only_on_refl calls_only_on_call])
      apply simp
     apply simp
    apply (rule "2.IH"; simp)
    done
qed

lemma start_rhasspy_calls: "calls_only_on (next_engine s) s (snd (start_rhasspy x s))"
  unfolding start_rhasspy_def Let_def
  apply (rule calls_only_on_then_do)
   apply (rule calls_only_on_call, simp)
  apply (rule calls_only_on_then_do)
   apply (rule calls_only_on_trans[OF calls_only_on_refl calls_only_on_call])
    apply simp
   apply simp
  apply (rule calls_only_on_then_do)
   apply (rule calls_only_on_trans[OF calls_only_on_refl])
    prefer 2
    apply simp
    apply (rule profile_settings_calls)
   apply simp
  apply (rule calls_only_on_then_do)
   apply (rule calls_only_on_call, simp)
  apply (rule calls_only_on_then_do)
   apply (rule calls_only_on_call, simp)
  apply (rule calls_only_on_then_do)
   apply (rule calls_only_on_call, simp)
  apply (rule calls_only_on_refl)
  apply simp
  done

lemma call_engine_returns:
  assumes "\<forall>calls c. \<exists>v. snd (engine x calls c) = Inr v"
  shows "\<exists>v. fst (call_engine x c s) = Return v"
proof -
  from assms obtain v where "snd (engine x (engine_calls s) c) = Inr v" by blast
  then show ?thesis by (simp add: call_engine_result)
qed

lemma then_do_returns:
  assumes "\<exists>v. fst m = Return v" and "\<And>v. \<exists>w. fst (f v (snd m)) = Return w"
  shows "\<exists>w. fst (then_do m f) = Return w"
  using assms by (auto simp: then_do_fst)

lemma profile_settings_returns:
  assumes "\<forall>calls c. \<exists>v. snd (engine x calls c) = Inr v"
  shows "fst (profile_settings x n kvs s) = Return ()"
  using assms
proof (induction x n kvs s rule: profile_settings.induct)
  case (1 x n s)
  then show ?case by simp
next
  case (2 x n key raw rest s)
  let ?v = "case json_loads x raw of None \<Rightarrow> PStr raw | Some v \<Rightarrow> v"
  let ?s1 = "logger_debug x ModuleLogger (''Profile: '' @ key @ ''='' @ py_str x ?v) s"
  from call_engine_returns[OF "2.prems"] obtain w
    where w: "fst (call_engine x (ProfileSet n key ?v) ?s1) = Return w" by blast
  have "fst (profile_settings x n rest (snd (call_engine x (ProfileSet n key ?v) ?s1))) = Return ()"
    by (rule "2.IH"[OF refl refl "2.prems"])
  with w show ?case by (simp add: Let_def then_do_fst)
qed

lemma start_rhasspy_returns:
  assumes ok: "\<forall>calls c. \<exists>v. snd (engine x calls c) = Inr v"
  shows "fst (start_rhasspy x s) = Return ()"
proof -
  have "\<exists>w. fst (start_rhasspy x s) = Return w"
    unfolding start_rhasspy_def Let_def
    apply (rule then_do_returns, rule call_engine_returns[OF ok])
    apply (rule then_do_returns, rule call_engine_returns[OF ok])
    apply (rule then_do_returns, simp add: profile_settings_returns[OF ok])
    apply (rule then_do_returns, rule call_engine_returns[OF ok])
    apply (rule then_do_returns, rule call_engine_returns[OF ok])
    apply (rule then_do_returns, rule call_engine_returns[OF ok])
    apply simp
    done
  then show ?thesis by simp
qed

lemma start_rhasspy_core:
  "fst (start_rhasspy x s) = Return u \<Longrightarrow> core (snd (start_rhasspy x s)) = Some (next_engine s)"
  unfolding start_rhasspy_def Let_def
  by (simp add: then_do_fst then_do_snd split: result.splits)

lemma example_engine_returns: "\<forall>calls c. \<exists>v. snd (engine example_ext calls c) = Inr v"
  by (simp add: example_ext_def example_engine_def split: engine_call.splits)

lemma then_do_call_ok:
  assumes "\<forall>calls c. \<exists>v. snd (engine x calls c) = Inr v"
  shows "then_do (call_engine x c s) (\<lambda>_. g) = g (snd (call_engine x c s))"
proof -
  from call_engine_returns[OF assms] obtain v where "fst (call_engine x c s) = Return v" by blast
  then show ?thesis by (simp add: then_do_Return)
qed

lemma profile_settings_exact_calls:
  assumes "\<forall>calls c. \<exists>v. snd (engine x calls c) = Inr v"
  shows "engine_calls (snd (profile_settings x n kvs s)) =
           engine_calls s @
           map (\<lambda>(key, raw). ProfileSet n key
                  (case json_loads x raw of None \<Rightarrow> PStr raw | Some v \<Rightarrow> v)) kvs"
  using assms
proof (induction x n kvs s rule: profile_settings.induct)
  case (1 x n s)
  then show ?case by simp
next
  case (2 x n key raw rest s)
  let ?v = "case json_loads x raw of None \<Rightarrow> PStr raw | Some v \<Rightarrow> v"
  let ?s1 = "logger_debug x ModuleLogger (''Profile: '' @ key @ ''='' @ py_str x ?v) s"
  let ?s2 = "snd (call_engine x (ProfileSet n key ?v) ?s1)"
  have "profile_settings x n ((key, raw) # rest) s = profile_settings x n rest ?s2"
    by (simp add: Let_def then_do_call_ok[OF "2.prems"])
  moreover have "engine_calls (snd (profile_settings x n rest ?s2)) =
      engine_calls ?s2 @ map (\<lambda>(key, raw). ProfileSet n key
                  (case json_loads x raw of None \<Rightarrow> PStr raw | Some v \<Rightarrow> v)) rest"
    by (rule "2.IH"[OF refl refl "2.prems"])
  ultimately show ?case by simp
qed

lemma start_rhasspy_exact_calls:
  assumes ok: "\<forall>calls c. \<exists>v. snd (engine x calls c) = Inr v"
  shows "engine_calls (snd (start_rhasspy x s)) =
           engine_calls s @ [ActorSystem, RhasspyCore (next_engine s)] @
           map (\<lambda>(key, raw). ProfileSet (next_engine s) key
                  (case json_loads x raw of None \<Rightarrow> PStr raw | Some v \<Rightarrow> v)) (args_set x) @
           [CreateActor, AskConfigure (next_engine s), CoreStart (next_engine s)]"
proof -
  have p: "\<And>n t g. then_do (profile_settings x n (args_set x) t) (\<lambda>_. g) =
             g (snd (profile_settings x n (args_set x) t))"
    by (simp add: then_do_Return[OF profile_settings_returns[OF ok]])
  show ?thesis
    by (simp add: start_rhasspy_def Let_def then_do_call_ok[OF ok] p
        profile_settings_exact_calls[OF ok])
qed

lemma start_rhasspy_fresh: "engine_fresh s \<Longrightarrow> engine_fresh (snd (start_rhasspy x s))"
  unfolding start_rhasspy_def Let_def engine_fresh_def
  by (simp add: then_do_snd split: result.splits option.splits)

lemma shutdown_fresh: "engine_fresh s \<Longrightarrow> engine_fresh (snd (shutdown x s))"
  unfolding shutdown_def engine_fresh_def
  by (simp add: then_do_snd split: result.splits option.splits)

lemma engine_fresh_cong:
  "core t = core s \<Longrightarrow> next_engine t = next_engine s \<Longrightarrow> engine_fresh s \<Longrightarrow> engine_fresh t"
  unfolding engine_fresh_def by (auto split: option.splits)

lemma api_restart_fresh: "engine_fresh s \<Longrightarrow> engine_fresh (snd (api_restart x s))"
proof -
  assume f: "engine_fresh s"
  show ?thesis
  proof (cases "core s")
    case None
    with f show ?thesis by (simp add: api_restart_def assert_core_def)
  next
    case (Some c)
    let ?s1 = "snd (call_engine x (CoreShutdown c) (logger_debug x ModuleLogger ''Restarting Rhasspy'' s))"
    have f1: "engine_fresh ?s1" by (rule engine_fresh_cong[OF _ _ f]) simp_all
    have f2: "engine_fresh (snd (start_rhasspy x ?s1))" by (rule start_rhasspy_fresh[OF f1])
    have f3: "engine_fresh (logger_info x ModuleLogger ''Restarted Rhasspy'' (snd (start_rhasspy x ?s1)))"
      by (rule engine_fresh_cong[OF _ _ f2]) simp_all
    from Some f1 f2 f3 show ?thesis
      by (simp add: api_restart_def assert_core_def Let_def then_do_snd split: result.splits)
  qed
qed

lemma publish_and_handle_engine [simp]:
  "core (snd (publish_and_handle x c no_hass intent s)) = core s"
  "next_engine (snd (publish_and_handle x c no_hass intent s)) = next_engine s"
  by (simp_all add: publish_and_handle_def Let_def then_do_snd split: sum.splits result.splits)

lemma api_profiles_engine:
  "core (snd (api_profiles x s)) = core s \<and> next_engine (snd (api_profiles x s)) = next_engine s"
  by (simp add: api_profiles_def assert_core_def then_do_snd split: option.splits result.splits)

lemma api_text_to_intent_engine:
  "core (snd (api_text_to_intent x req s)) = core s \<and>
   next_engine (snd (api_text_to_intent x req s)) = next_engine s"
  by (simp add: api_text_to_intent_def assert_core_def Let_def then_do_snd
      split: option.splits result.splits sum.splits)

lemma api_speech_to_intent_engine:
  "core (snd (api_speech_to_intent x req s)) = core s \<and>
   next_engine (snd (api_speech_to_intent x req s)) = next_engine s"
  by (simp add: api_speech_to_intent_def assert_core_def Let_def then_do_snd
      split: option.splits result.splits sum.splits)

lemma api_stop_recording_engine:
  "core (snd (api_stop_recording x req s)) = core s \<and>
   next_engine (snd (api_stop_recording x req s)) = next_engine s"
  by (simp add: api_stop_recording_def assert_core_def Let_def then_do_snd
      split: option.splits result.splits sum.splits)

lemma api_text_to_speech_engine:
  "core (snd (api_text_to_speech x req s)) = core s \<and>
   next_engine (snd (api_text_to_speech x req s)) = next_engine s"
  by (simp add: api_text_to_speech_def assert_core_def Let_def then_do_snd
      split: option.splits result.splits sum.splits)

lemma rest_of_view_engine:
  "core (snd (assert_core s (\<lambda>c s. rest_of_view x v req c s))) = core s \<and>
   next_engine (snd (assert_core s (\<lambda>c s. rest_of_view x v req c s))) = next_engine s"
  by (simp add: assert_core_def rest_of_view_def Let_def split: option.splits)

lemma handler_fresh: "engine_fresh s \<Longrightarrow> engine_fresh (snd (handler x v req s))"
proof (cases "v = ApiRestart")
  case True
  assume "engine_fresh s"
  with True show ?thesis by (simp add: api_restart_fresh)
next
  case False
  assume f: "engine_fresh s"
  from False have "core (snd (handler x v req s)) = core s \<and>
      next_engine (snd (handler x v req s)) = next_engine s"
    by (cases v)
      (simp_all add: api_profiles_engine api_text_to_intent_engine api_speech_to_intent_engine
        api_stop_recording_engine api_text_to_speech_engine rest_of_view_engine)
  then show ?thesis using f by (blast intro: engine_fresh_cong)
qed

lemma serve_fresh:
  assumes "engine_fresh (snd (h s))"
  shows "engine_fresh (snd (serve x h s))"
proof (cases "h s")
  case (Pair r t)
  show ?thesis
  proof (cases r)
    case (Return v)
    with Pair assms show ?thesis by (simp add: serve_def)
  next
    case (Raise err)
    have "engine_fresh (logger_exception x ModuleLogger (str_error x err) err t)"
      by (rule engine_fresh_cong[where s=t]) (use Pair assms in simp_all)
    with Pair Raise show ?thesis by (simp add: serve_def handle_error_def)
  qed
qed

lemma in_started_engine:
  "core (snd (in_started x message s)) = core s \<and>
   next_engine (snd (in_started x message s)) = next_engine s"
  by (simp add: in_started_def Let_def then_do_snd
      split: message.splits option.splits result.splits sum.splits)

lemma step_fresh: "engine_fresh s \<Longrightarrow> engine_fresh (step x ev s)"
proof (cases ev)
  case Started
  assume "engine_fresh s"
  with Started show ?thesis by (simp add: start_rhasspy_fresh)
next
  case (Served v req)
  assume "engine_fresh s"
  with Served show ?thesis by (simp add: serve_fresh handler_fresh)
next
  case (Notified message)
  assume "engine_fresh s"
  with Notified in_started_engine[of x message s] show ?thesis
    by (auto intro: engine_fresh_cong)
next
  case (Connected e ws)
  assume "engine_fresh s"
  then have "engine_fresh (ws_register e ws s)"
    by (rule engine_fresh_cong[rotated 2]) (simp_all add: ws_register_def Let_def)
  with Connected show ?thesis by simp
next
  case (Disconnected e ws)
  assume "engine_fresh s"
  then have "engine_fresh (snd (ws_remove e ws s))"
    by (rule engine_fresh_cong[rotated 2]) (simp_all add: ws_remove_def)
  with Disconnected show ?thesis by simp
next
  case Exited
  assume "engine_fresh s"
  with Exited show ?thesis by (simp add: shutdown_fresh)
qed

lemma run_fresh: "engine_fresh s \<Longrightarrow> engine_fresh (run x events s)"
  unfolding run_def by (induction events arbitrary: s) (simp_all add: step_fresh)

lemma initial_fresh: "engine_fresh initial"
  by (simp add: engine_fresh_def initial_def)

text \<open>
  C2, as the claim states it, fails: with an engine running, a second \<^verbatim>\<open>start_rhasspy()\<close>
  returns normally and the handle names a new engine.
\<close>

theorem start_rhasspy_twice_counterexample:
  "core running = Some 0 \<and>
   fst (start_rhasspy example_ext running) = Return () \<and>
   core (snd (start_rhasspy example_ext running)) = Some 1 \<and>
   engine_calls (snd (start_rhasspy example_ext running)) =
     engine_calls running @ [ActorSystem, RhasspyCore 1, CreateActor, AskConfigure 1, CoreStart 1]"
  by (simp add: running_eval) (simp add: example_eval running_eval)

text \<open>
  C2, amended. \<^verbatim>\<open>start_rhasspy\<close> does not look at the handle. In any state the process can
  reach, and with an engine package that raises nothing, it returns normally; it makes
  exactly these calls, in this order: a new actor system, the constructor of a new engine,
  one \<^verbatim>\<open>profile.set\<close> on the new engine for each \<^verbatim>\<open>--set\<close> pair, the observer actor, its
  configuration with the new engine, and the new engine's \<^verbatim>\<open>start\<close> (the name and the
  directory of the new engine's profile are read besides); and the handle then names the
  new engine. If the handle named an engine before, that is another engine than
  the new one and none of these calls is made on it: it is neither stopped nor touched in
  any other way.
\<close>

theorem start_rhasspy_replaces_core:
  assumes ok: "\<forall>calls c. \<exists>v. snd (engine x calls c) = Inr v"
    and reach: "s = run x events initial"
  shows "fst (start_rhasspy x s) = Return () \<and>
         core (snd (start_rhasspy x s)) = Some (next_engine s) \<and>
         engine_calls (snd (start_rhasspy x s)) =
           engine_calls s @ [ActorSystem, RhasspyCore (next_engine s)] @
           map (\<lambda>(key, raw). ProfileSet (next_engine s) key
                  (case json_loads x raw of None \<Rightarrow> PStr raw | Some v \<Rightarrow> v)) (args_set x) @
           [CreateActor, AskConfigure (next_engine s), CoreStart (next_engine s)] \<and>
         (\<forall>old. core s = Some old \<longrightarrow>
            old \<noteq> next_engine s \<and>
            (\<forall>k \<in> set (drop (length (engine_calls s)) (engine_calls (snd (start_rhasspy x s)))).
               call_target k \<noteq> Some old))"
proof -
  have r: "fst (start_rhasspy x s) = Return ()" by (rule start_rhasspy_returns[OF ok])
  have c: "core (snd (start_rhasspy x s)) = Some (next_engine s)" by (rule start_rhasspy_core[OF r])
  have e: "engine_calls (snd (start_rhasspy x s)) =
           engine_calls s @ [ActorSystem, RhasspyCore (next_engine s)] @
           map (\<lambda>(key, raw). ProfileSet (next_engine s) key
                  (case json_loads x raw of None \<Rightarrow> PStr raw | Some v \<Rightarrow> v)) (args_set x) @
           [CreateActor, AskConfigure (next_engine s), CoreStart (next_engine s)]"
    by (rule start_rhasspy_exact_calls[OF ok])
  have f: "engine_fresh s" unfolding reach by (rule run_fresh[OF initial_fresh])
  have o: "\<forall>old. core s = Some old \<longrightarrow>
            old \<noteq> next_engine s \<and>
            (\<forall>k \<in> set (drop (length (engine_calls s)) (engine_calls (snd (start_rhasspy x s)))).
               call_target k \<noteq> Some old)"
  proof (intro allI impI)
    fix old assume "core s = Some old"
    with f have lt: "old < next_engine s" by (simp add: engine_fresh_def)
    from start_rhasspy_calls[of s x] obtain new
      where n: "engine_calls (snd (start_rhasspy x s)) = engine_calls s @ new"
        and t: "\<forall>k \<in> set new. call_target k = None \<or> call_target k = Some (next_engine s)"
      unfolding calls_only_on_def by blast
    from n have "drop (length (engine_calls s)) (engine_calls (snd (start_rhasspy x s))) = new"
      by simp
    with t lt show "old \<noteq> next_engine s \<and>
            (\<forall>k \<in> set (drop (length (engine_calls s)) (engine_calls (snd (start_rhasspy x s)))).
               call_target k \<noteq> Some old)"
      by fastforce
  qed
  from r c e o show ?thesis by blast
qed

theorem start_rhasspy_replaces_core_witness:
  "(\<forall>calls c. \<exists>v. snd (engine example_ext calls c) = Inr v) \<and>
   running = run example_ext [Started] initial \<and>
   core running = Some 0 \<and>
   fst (start_rhasspy example_ext running) = Return () \<and>
   core (snd (start_rhasspy example_ext running)) = Some 1 \<and>
   engine_calls (snd (start_rhasspy example_ext running)) =
     engine_calls running @ [ActorSystem, RhasspyCore 1, CreateActor, AskConfigure 1, CoreStart 1] \<and>
   Some 0 \<notin> set (map call_target
                    (drop (length (engine_calls running))
                       (engine_calls (snd (start_rhasspy example_ext running)))))"
proof -
  have ok: "\<forall>calls c. \<exists>v. snd (engine example_ext calls c) = Inr v"
    by (rule example_engine_returns)
  have rn: "running = run example_ext [Started] initial" by (simp add: run_def running_def)
  have c: "core running = Some 0" "next_engine running = 1" by (rule running_eval)+
  have a: "args_set example_ext = []" by (simp add: example_ext_def)
  from start_rhasspy_replaces_core[OF ok rn] c a ok rn show ?thesis by (simp add: image_iff)
qed

section \<open>Restart and the channels\<close>

lemma same_channels_refl: "same_channels a a"
  by (simp add: same_channels_def)

lemma same_channels_trans: "same_channels a b \<Longrightarrow> same_channels b c \<Longrightarrow> same_channels a c"
  by (simp add: same_channels_def)

lemma same_channels_add:
  "same_channels a b \<Longrightarrow> same_channels (add_ws_event e t a) (add_ws_event e t b)"
  by (simp add: same_channels_def add_ws_event_def)

lemma same_channels_fold:
  "same_channels a b \<Longrightarrow> same_channels (fold (add_ws_event e) ls a) (fold (add_ws_event e) ls b)"
  by (induction ls arbitrary: a b) (simp_all add: same_channels_add)

lemma logged_same: "same_channels s' s \<Longrightarrow> logged s s'"
  unfolding logged_def by (rule exI[of _ "[]"]) simp

lemma logged_trans:
  assumes "logged s s1" and "logged s1 s2" shows "logged s s2"
proof -
  from assms obtain l1 l2 where 1: "same_channels s1 (fold (add_ws_event WS_EVENT_LOG) l1 s)"
    and 2: "same_channels s2 (fold (add_ws_event WS_EVENT_LOG) l2 s1)"
    unfolding logged_def by blast
  from same_channels_fold[OF 1, of WS_EVENT_LOG l2]
  have "same_channels (fold (add_ws_event WS_EVENT_LOG) l2 s1) (fold (add_ws_event WS_EVENT_LOG) (l1 @ l2) s)"
    by simp
  with 2 have "same_channels s2 (fold (add_ws_event WS_EVENT_LOG) (l1 @ l2) s)"
    by (rule same_channels_trans)
  then show ?thesis unfolding logged_def by blast
qed

lemma logged_add: "logged s (add_ws_event WS_EVENT_LOG t s)"
  unfolding logged_def by (rule exI[of _ "[t]"]) (simp add: same_channels_refl)

lemma logged_logger:
  "logged s (logger_debug x lg m s)" "logged s (logger_info x lg m s)"
  "logged s (logger_exception x lg m err s)"
  by (simp_all add: logger_debug_def logger_info_def logger_exception_def logged_add)

lemma logged_call: "logged s (snd (call_engine x c s))"
proof -
  let ?ls = "fst (engine x (engine_calls s) c)"
  have "same_channels (s\<lparr>engine_calls := engine_calls s @ [c]\<rparr>) s"
    by (simp add: same_channels_def)
  then have "same_channels (fold (add_ws_event WS_EVENT_LOG) ?ls (s\<lparr>engine_calls := engine_calls s @ [c]\<rparr>))
      (fold (add_ws_event WS_EVENT_LOG) ?ls s)" by (rule same_channels_fold)
  moreover have "snd (call_engine x c s) = fold (add_ws_event WS_EVENT_LOG) ?ls (s\<lparr>engine_calls := engine_calls s @ [c]\<rparr>)"
    by (simp add: call_engine_def Let_def split: sum.splits)
  ultimately show ?thesis unfolding logged_def by auto
qed

lemma logged_then_do:
  assumes "logged s (snd m)"
    and "\<And>v. fst m = Return v \<Longrightarrow> logged (snd m) (snd (f v (snd m)))"
  shows "logged s (snd (then_do m f))"
proof (cases "fst m")
  case (Return v)
  with assms(2)[OF Return] assms(1) show ?thesis
    by (simp add: then_do_snd) (rule logged_trans)
next
  case (Raise err)
  with assms(1) show ?thesis by (simp add: then_do_snd)
qed

lemma logged_profile_settings: "logged s (snd (profile_settings x n kvs s))"
proof (induction x n kvs s rule: profile_settings.induct)
  case (1 x n s)
  then show ?case by (simp add: logged_same same_channels_refl)
next
  case (2 x n key raw rest s)
  show ?case
    unfolding profile_settings.simps Let_def
    apply (rule logged_then_do)
     apply (rule logged_trans[OF logged_logger(1) logged_call])
    apply (rule "2.IH"; simp)
    done
qed

lemma logged_start_rhasspy: "logged s (snd (start_rhasspy x s))"
  unfolding start_rhasspy_def Let_def
  apply (rule logged_then_do, rule logged_call)
  apply (rule logged_then_do)
   apply (rule logged_trans[OF logged_same logged_call], simp add: same_channels_def)
  apply (rule logged_then_do)
   apply (rule logged_trans[OF logged_same logged_profile_settings], simp add: same_channels_def)
  apply (rule logged_then_do, rule logged_call)
  apply (rule logged_then_do, rule logged_call)
  apply (rule logged_then_do, rule logged_call)
  apply (simp add: logged_logger)
  done

lemma logged_restart_body:
  "logged s1 (snd (then_do (call_engine x (CoreShutdown c) s1) (\<lambda>_ s.
     then_do (start_rhasspy x s) (\<lambda>_ s.
     let s = logger_info x ModuleLogger ''Restarted Rhasspy'' s in
     (Return (Text ''Restarted Rhasspy''), s)))))"
  apply (rule logged_then_do, rule logged_call)
  apply (rule logged_then_do, rule logged_start_rhasspy)
  apply (simp add: Let_def logged_logger)
  done

lemma fold_log_published:
  "published (fold (add_ws_event WS_EVENT_LOG) lines s) = published s @ map (Pair WS_EVENT_LOG) lines"
  by (induction lines arbitrary: s) (simp_all add: add_ws_event_def)

lemma fold_log_queues:
  assumes "distinct (map snd (ws_queues s WS_EVENT_LOG))"
  shows "queues (fold (add_ws_event WS_EVENT_LOG) lines s) q =
           queues s q @ (if q \<in> snd ` set (ws_queues s WS_EVENT_LOG) then lines else [])"
  using assms
proof (induction lines arbitrary: s)
  case Nil
  then show ?case by simp
next
  case (Cons t lines)
  have d: "distinct (map snd (ws_queues (add_ws_event WS_EVENT_LOG t s) WS_EVENT_LOG))"
    using Cons.prems by simp
  have q: "queues (add_ws_event WS_EVENT_LOG t s) q =
      (if q \<in> snd ` set (ws_queues s WS_EVENT_LOG) then queues s q @ [t] else queues s q)"
    using Cons.prems by (simp add: add_ws_event_def fold_queue_put del: image_iff)
  show ?case using Cons.IH[OF d] q by (simp del: image_iff)
qed

lemma two_sessions_eval:
  "core (ws_register WS_EVENT_INTENT 6 (ws_register WS_EVENT_LOG 5 running)) = Some 0"
  "ws_queues (ws_register WS_EVENT_INTENT 6 (ws_register WS_EVENT_LOG 5 running)) WS_EVENT_LOG = [(5, 0)]"
  "ws_queues (ws_register WS_EVENT_INTENT 6 (ws_register WS_EVENT_LOG 5 running)) WS_EVENT_INTENT = [(6, 1)]"
  "queues (ws_register WS_EVENT_INTENT 6 (ws_register WS_EVENT_LOG 5 running)) 0 = []"
  "queues (ws_register WS_EVENT_INTENT 6 (ws_register WS_EVENT_LOG 5 running)) 1 = []"
  "queues (ws_register WS_EVENT_INTENT 6 (ws_register WS_EVENT_LOG 5 running)) (Suc 0) = []"
  by (simp_all add: ws_register_def Let_def running_eval)


text \<open>
  C9, as the claim states it, fails for the log channel: \<^verbatim>\<open>api_restart\<close> logs, and every
  log record is published to the log subscribers, so the pending queue of a log session
  is not left unchanged.
\<close>

theorem api_restart_log_queue_counterexample:
  "mailbox (ws_register WS_EVENT_INTENT 6 (ws_register WS_EVENT_LOG 5 running)) WS_EVENT_LOG 5 = Some [] \<and>
   fst (api_restart example_ext (ws_register WS_EVENT_INTENT 6 (ws_register WS_EVENT_LOG 5 running)))
     = Return (Text ''Restarted Rhasspy'') \<and>
   mailbox (snd (api_restart example_ext
              (ws_register WS_EVENT_INTENT 6 (ws_register WS_EVENT_LOG 5 running)))) WS_EVENT_LOG 5
     = Some [''DEBUG Restarting Rhasspy'', ''engine stopped'', ''engine started'',
             ''INFO Started'', ''INFO Restarted Rhasspy'']"
  by (simp add: mailbox_def api_restart_def assert_core_def two_sessions_eval)
     (simp add: example_eval queue_put_def ws_register_def running_eval)


text \<open>
  C9, amended. \<^verbatim>\<open>api_restart\<close> leaves both registries as they were: no session is added,
  dropped or given another queue. It publishes nothing to the intent channel. Every queue
  keeps its pending messages, in order; the queues registered in the log channel get, after
  them, each once, the log lines emitted during the restart (the first is the line
  "Restarting Rhasspy" whenever the handle is not null), and no other queue changes. So a
  session blocked on its queue still receives what was published before the restart and,
  being still registered, what is published after it.
\<close>

theorem api_restart_keeps_subscribers:
  assumes d: "distinct (map snd (ws_queues s WS_EVENT_LOG))"
  shows "ws_queues (snd (api_restart x s)) = ws_queues s \<and>
         (\<exists>lines.
            published (snd (api_restart x s)) = published s @ map (Pair WS_EVENT_LOG) lines \<and>
            (\<forall>q. queues (snd (api_restart x s)) q =
                   queues s q @ (if q \<in> snd ` set (ws_queues s WS_EVENT_LOG) then lines else [])) \<and>
            (core s \<noteq> None \<longrightarrow>
               (\<exists>rest. lines = log_format x ModuleLogger ''DEBUG'' ''Restarting Rhasspy'' # rest)))"
proof (cases "core s")
  case None
  then have "api_restart x s = (Raise AssertionError, s)"
    by (simp add: api_restart_def assert_core_def)
  with None show ?thesis by (intro conjI exI[of _ "[]"]) simp_all
next
  case (Some c)
  let ?t = "log_format x ModuleLogger ''DEBUG'' ''Restarting Rhasspy''"
  let ?s1 = "add_ws_event WS_EVENT_LOG ?t s"
  let ?s' = "snd (api_restart x s)"
  have "logged ?s1 ?s'"
    using Some logged_restart_body[of "logger_debug x ModuleLogger ''Restarting Rhasspy'' s" x c]
    by (simp add: api_restart_def assert_core_def Let_def logger_debug_def)
  then obtain rest where sc: "same_channels ?s' (fold (add_ws_event WS_EVENT_LOG) (?t # rest) s)"
    unfolding logged_def by auto
  let ?lines = "?t # rest"
  from sc have 1: "ws_queues ?s' = ws_queues s" by (simp add: same_channels_def)
  from sc have 2: "published ?s' = published s @ map (Pair WS_EVENT_LOG) ?lines"
    unfolding same_channels_def fold_log_published by blast
  from sc have "queues ?s' = queues (fold (add_ws_event WS_EVENT_LOG) ?lines s)"
    unfolding same_channels_def by blast
  then have 3: "\<forall>q. queues ?s' q =
      queues s q @ (if q \<in> snd ` set (ws_queues s WS_EVENT_LOG) then ?lines else [])"
    using fold_log_queues[OF d, of ?lines] by (simp del: image_iff fold_simps)
  from 1 2 3 show ?thesis by blast
qed


theorem api_restart_keeps_subscribers_witness:
  "distinct (map snd (ws_queues (ws_register WS_EVENT_INTENT 6 (ws_register WS_EVENT_LOG 5 running))
      WS_EVENT_LOG)) \<and>
   ws_queues (snd (api_restart example_ext
      (ws_register WS_EVENT_INTENT 6 (ws_register WS_EVENT_LOG 5 running)))) =
     ws_queues (ws_register WS_EVENT_INTENT 6 (ws_register WS_EVENT_LOG 5 running)) \<and>
   queues (snd (api_restart example_ext
      (ws_register WS_EVENT_INTENT 6 (ws_register WS_EVENT_LOG 5 running)))) 1 = [] \<and>
   (\<exists>rest. queues (snd (api_restart example_ext
      (ws_register WS_EVENT_INTENT 6 (ws_register WS_EVENT_LOG 5 running)))) 0 =
        ''DEBUG Restarting Rhasspy'' # rest)"
proof -
  let ?s = "ws_register WS_EVENT_INTENT 6 (ws_register WS_EVENT_LOG 5 running)"
  have d: "distinct (map snd (ws_queues ?s WS_EVENT_LOG))" by (simp add: two_sessions_eval)
  have f: "log_format example_ext ModuleLogger ''DEBUG'' ''Restarting Rhasspy'' = ''DEBUG Restarting Rhasspy''"
    by (simp add: example_ext_def)
  have c: "core ?s \<noteq> None" by (simp add: two_sessions_eval)
  from api_restart_keeps_subscribers[OF d, of example_ext] c f obtain rest
    where w: "ws_queues (snd (api_restart example_ext ?s)) = ws_queues ?s"
      and q: "\<And>q. queues (snd (api_restart example_ext ?s)) q =
          queues ?s q @ (if q \<in> snd ` set (ws_queues ?s WS_EVENT_LOG)
                         then ''DEBUG Restarting Rhasspy'' # rest else [])"
    by auto
  have "queues (snd (api_restart example_ext ?s)) 1 = []"
    unfolding q[of 1] by (simp add: two_sessions_eval)
  moreover have "queues (snd (api_restart example_ext ?s)) 0 = ''DEBUG Restarting Rhasspy'' # rest"
    unfolding q[of 0] by (simp add: two_sessions_eval)
  ultimately show ?thesis using d w by blast
qed

section \<open>Teardown of a websocket session\<close>

lemma delete_as_filter: "AList.delete k al = filter (\<lambda>p. fst p \<noteq> k) al"
  by (induction al) auto

text \<open>
  C4, as the claim states it, fails: \<^verbatim>\<open>del ws_queues[e][ws]\<close> raises \<^verbatim>\<open>KeyError\<close> for a websocket
  that is not registered, be it unknown or already removed.
\<close>

theorem ws_remove_absent_counterexample:
  "fst (ws_remove WS_EVENT_LOG 7 initial) = Raise (KeyError (PObj 7)) \<and>
   fst (ws_remove WS_EVENT_INTENT 7
          (snd (ws_remove WS_EVENT_INTENT 7 (ws_register WS_EVENT_INTENT 7 initial)))) =
     Raise (KeyError (PObj 7))"
  by (simp add: ws_remove_def initial_def ws_register_def Let_def AList.delete_eq)

text \<open>
  C4, amended. Removing a registered websocket returns and takes the entry of that
  websocket out of the dict of that channel: every other entry, the dict of the other
  channel and every queue are as before. Removing a websocket that is not registered
  raises \<^verbatim>\<open>KeyError\<close> and changes nothing; in particular a second removal right after a
  first one raises.
\<close>

theorem ws_remove_effect:
  "(ws \<in> fst ` set (ws_queues s e) \<longrightarrow>
      ws_remove e ws s =
        (Return (),
         s\<lparr> ws_queues := (ws_queues s)(e := filter (\<lambda>p. fst p \<noteq> ws) (ws_queues s e)) \<rparr>) \<and>
      mailbox (snd (ws_remove e ws s)) e ws = None \<and>
      (\<forall>e' ws'. e' \<noteq> e \<or> ws' \<noteq> ws \<longrightarrow>
         mailbox (snd (ws_remove e ws s)) e' ws' = mailbox s e' ws') \<and>
      ws_remove e ws (snd (ws_remove e ws s)) =
        (Raise (KeyError (PObj ws)), snd (ws_remove e ws s))) \<and>
   (ws \<notin> fst ` set (ws_queues s e) \<longrightarrow>
      ws_remove e ws s = (Raise (KeyError (PObj ws)), s))"
proof (intro conjI impI)
  assume r: "ws \<in> fst ` set (ws_queues s e)"
  let ?s' = "s\<lparr> ws_queues := (ws_queues s)(e := filter (\<lambda>p. fst p \<noteq> ws) (ws_queues s e)) \<rparr>"
  from r show eq: "ws_remove e ws s = (Return (), ?s')"
    by (simp add: ws_remove_def delete_as_filter)
  show "mailbox (snd (ws_remove e ws s)) e ws = None"
    using mailbox_remove[OF eq, of e ws] by (simp add: eq)
  show "\<forall>e' ws'. e' \<noteq> e \<or> ws' \<noteq> ws \<longrightarrow>
         mailbox (snd (ws_remove e ws s)) e' ws' = mailbox s e' ws'"
    using mailbox_remove[OF eq] by (auto simp: eq)
  have "ws \<notin> fst ` set (filter (\<lambda>p. fst p \<noteq> ws) (ws_queues s e))"
    by (simp add: image_iff)
  then show "ws_remove e ws (snd (ws_remove e ws s)) =
        (Raise (KeyError (PObj ws)), snd (ws_remove e ws s))"
    by (simp add: eq) (simp add: ws_remove_def)
next
  assume "ws \<notin> fst ` set (ws_queues s e)"
  then show "ws_remove e ws s = (Raise (KeyError (PObj ws)), s)" by (simp add: ws_remove_def)
qed

theorem ws_remove_effect_witness:
  "7 \<in> fst ` set (ws_queues (ws_register WS_EVENT_INTENT 7 initial) WS_EVENT_INTENT) \<and>
   fst (ws_remove WS_EVENT_INTENT 7 (ws_register WS_EVENT_INTENT 7 initial)) = Return () \<and>
   ws_queues (snd (ws_remove WS_EVENT_INTENT 7 (ws_register WS_EVENT_INTENT 7 initial)))
     WS_EVENT_INTENT = [] \<and>
   mailbox (snd (ws_remove WS_EVENT_INTENT 7 (ws_register WS_EVENT_INTENT 7 initial)))
     WS_EVENT_INTENT 7 = None \<and>
   fst (ws_remove WS_EVENT_INTENT 7
     (snd (ws_remove WS_EVENT_INTENT 7 (ws_register WS_EVENT_INTENT 7 initial))))
     = Raise (KeyError (PObj 7)) \<and>
   7 \<notin> fst ` set (ws_queues initial WS_EVENT_LOG) \<and>
   ws_remove WS_EVENT_LOG 7 initial = (Raise (KeyError (PObj 7)), initial)"
proof -
  have a: "7 \<in> fst ` set (ws_queues (ws_register WS_EVENT_INTENT 7 initial) WS_EVENT_INTENT)"
    by (simp add: ws_register_def initial_def Let_def)
  have b: "7 \<notin> fst ` set (ws_queues initial WS_EVENT_LOG)" by (simp add: initial_def)
  have c: "ws_queues (ws_register WS_EVENT_INTENT 7 initial) WS_EVENT_INTENT = [(7, 0)]"
    by (simp add: ws_register_def initial_def Let_def)
  let ?s = "ws_register WS_EVENT_INTENT 7 initial"
  from a ws_remove_effect[of 7 ?s WS_EVENT_INTENT]
  have eq: "ws_remove WS_EVENT_INTENT 7 ?s =
      (Return (), ?s\<lparr> ws_queues := (ws_queues ?s)(WS_EVENT_INTENT :=
          filter (\<lambda>p. fst p \<noteq> 7) (ws_queues ?s WS_EVENT_INTENT)) \<rparr>)"
    and m: "mailbox (snd (ws_remove WS_EVENT_INTENT 7 ?s)) WS_EVENT_INTENT 7 = None"
    and t: "ws_remove WS_EVENT_INTENT 7 (snd (ws_remove WS_EVENT_INTENT 7 ?s)) =
        (Raise (KeyError (PObj 7)), snd (ws_remove WS_EVENT_INTENT 7 ?s))"
    by blast+
  from eq have r: "fst (ws_remove WS_EVENT_INTENT 7 ?s) = Return ()"
    and q: "ws_queues (snd (ws_remove WS_EVENT_INTENT 7 ?s)) WS_EVENT_INTENT = []"
    by (simp_all add: c)
  from t have t': "fst (ws_remove WS_EVENT_INTENT 7 (snd (ws_remove WS_EVENT_INTENT 7 ?s))) =
      Raise (KeyError (PObj 7))" by simp
  from b ws_remove_effect[of 7 initial WS_EVENT_LOG]
  have l: "ws_remove WS_EVENT_LOG 7 initial = (Raise (KeyError (PObj 7)), initial)" by blast
  from a b r q m t' l show ?thesis by blast
qed

section \<open>Requests while the handle is null\<close>

lemma assert_core_None: "core s = None \<Longrightarrow> assert_core s body = (Raise AssertionError, s)"
  by (simp add: assert_core_def)

lemma handler_null_core:
  assumes "core s = None" and "v \<noteq> ApiTextToSpeech"
  shows "handler x v req s = (Raise AssertionError, s)"
  using assms
  by (cases v)
    (simp_all add: assert_core_None api_profiles_def api_restart_def api_text_to_intent_def
      api_speech_to_intent_def api_stop_recording_def)

lemma text_to_speech_null_core:
  assumes "core s = None"
  shows "handler x ApiTextToSpeech req s =
           (if py_lower x (py_strip x (request_arg req ''repeat'' ''false'')) = ''true''
            then (Raise AssertionError, s)
            else (case decode x (req_data req) of
                    Inl err \<Rightarrow> (Raise err, s)
                  | Inr sentence \<Rightarrow> (Raise AssertionError, s)))"
  using assms
  by (simp add: api_text_to_speech_def assert_core_None then_do_def split: sum.splits)

text \<open>
  C8, as the claim states it, fails: with a null handle the \<^verbatim>\<open>assert\<close> raises, and the reply
  made by \<^verbatim>\<open>handle_error\<close> is status 500 with an empty body, the same reply as for any
  exception with an empty message; nothing in it says that the engine is not ready. And
  \<^verbatim>\<open>api_text_to_speech\<close> decodes the body before it looks at the handle, so that with a null
  handle a body that is not UTF-8 is answered with the text of the decoding error.
\<close>

theorem null_core_reply_counterexample:
  "core initial = None \<and>
   fst (serve example_ext
          (handler example_ext ApiProfiles \<lparr>req_data = [], req_args = [], req_elapsed = 0\<rparr>)
          initial) = (Text [], 500) \<and>
   fst (handle_error example_ext (Exception []) initial) = (Text [], 500) \<and>
   fst (serve example_ext
          (handler example_ext ApiTextToSpeech
             \<lparr>req_data = [CHR 0xFF], req_args = [], req_elapsed = 0\<rparr>)
          initial) = (Text ''invalid start byte'', 500)"
  by (simp add: serve_def api_profiles_def assert_core_def handle_error_def initial_def
      api_text_to_speech_def then_do_def request_arg_def example_ext_def)

text \<open>
  C8, amended. With a null handle, every view that reads the handle raises before any
  call into the engine and leaves the state as it was. In each of the 26 views except
  \<^verbatim>\<open>api_text_to_speech\<close> the exception is the \<^verbatim>\<open>AssertionError\<close> of \<^verbatim>\<open>assert core is not None\<close>;
  in \<^verbatim>\<open>api_text_to_speech\<close> it is that one too when \<^verbatim>\<open>repeat\<close> is set or the body can be
  decoded, and the decoding error otherwise. \<^verbatim>\<open>handle_error\<close> logs the exception, and the
  caller gets status 500 with an empty body for the \<^verbatim>\<open>AssertionError\<close> and with the message
  of the decoding error for that one.
\<close>

theorem null_core_gives_empty_500:
  assumes "core s = None"
  shows "(v \<noteq> ApiTextToSpeech \<longrightarrow> handler x v req s = (Raise AssertionError, s)) \<and>
         handler x ApiTextToSpeech req s =
           (if py_lower x (py_strip x (request_arg req ''repeat'' ''false'')) = ''true''
            then (Raise AssertionError, s)
            else (case decode x (req_data req) of
                    Inl err \<Rightarrow> (Raise err, s)
                  | Inr sentence \<Rightarrow> (Raise AssertionError, s))) \<and>
         (handler x v req s = (Raise AssertionError, s) \<longrightarrow>
            serve x (handler x v req) s =
              ((Text [], 500), logger_exception x ModuleLogger [] AssertionError s)) \<and>
         (handler x v req s = (Raise (UnicodeDecodeError msg), s) \<longrightarrow>
            serve x (handler x v req) s =
              ((Text msg, 500),
               logger_exception x ModuleLogger msg (UnicodeDecodeError msg) s)) \<and>
         engine_calls (snd (serve x (handler x v req) s)) = engine_calls s"
proof -
  have a: "v \<noteq> ApiTextToSpeech \<longrightarrow> handler x v req s = (Raise AssertionError, s)"
    using handler_null_core[OF assms] by blast
  have b: "handler x ApiTextToSpeech req s =
           (if py_lower x (py_strip x (request_arg req ''repeat'' ''false'')) = ''true''
            then (Raise AssertionError, s)
            else (case decode x (req_data req) of
                    Inl err \<Rightarrow> (Raise err, s)
                  | Inr sentence \<Rightarrow> (Raise AssertionError, s)))"
    by (rule text_to_speech_null_core[OF assms])
  have c: "handler x v req s = (Raise AssertionError, s) \<longrightarrow>
            serve x (handler x v req) s =
              ((Text [], 500), logger_exception x ModuleLogger [] AssertionError s)"
    by (simp add: serve_def handle_error_def)
  have d: "handler x v req s = (Raise (UnicodeDecodeError msg), s) \<longrightarrow>
            serve x (handler x v req) s =
              ((Text msg, 500),
               logger_exception x ModuleLogger msg (UnicodeDecodeError msg) s)"
    by (simp add: serve_def handle_error_def)
  have "\<exists>err. handler x v req s = (Raise err, s)"
  proof (cases "v = ApiTextToSpeech")
    case True
    then show ?thesis using b by (auto split: sum.splits)
  next
    case False
    then show ?thesis using a by blast
  qed
  then have e: "engine_calls (snd (serve x (handler x v req) s)) = engine_calls s"
    by (auto simp: serve_def handle_error_def)
  from a b c d e show ?thesis by blast
qed

theorem null_core_gives_empty_500_witness:
  "core initial = None \<and>
   handler example_ext ApiTrain \<lparr>req_data = [], req_args = [], req_elapsed = 0\<rparr> initial =
     (Raise AssertionError, initial) \<and>
   serve example_ext
     (handler example_ext ApiTrain \<lparr>req_data = [], req_args = [], req_elapsed = 0\<rparr>) initial =
     ((Text [], 500), logger_exception example_ext ModuleLogger [] AssertionError initial) \<and>
   handler example_ext ApiTextToSpeech
     \<lparr>req_data = [CHR 0xFF], req_args = [], req_elapsed = 0\<rparr> initial =
     (Raise (UnicodeDecodeError ''invalid start byte''), initial) \<and>
   serve example_ext
     (handler example_ext ApiTextToSpeech
        \<lparr>req_data = [CHR 0xFF], req_args = [], req_elapsed = 0\<rparr>) initial =
     ((Text ''invalid start byte'', 500),
      logger_exception example_ext ModuleLogger ''invalid start byte''
        (UnicodeDecodeError ''invalid start byte'') initial)"
proof -
  let ?r = "\<lparr>req_data = [], req_args = [], req_elapsed = 0\<rparr>"
  let ?b = "\<lparr>req_data = [CHR 0xFF], req_args = [], req_elapsed = 0\<rparr>"
  have n: "core initial = None" by (simp add: initial_def)
  have t: "handler example_ext ApiTextToSpeech ?b initial =
      (Raise (UnicodeDecodeError ''invalid start byte''), initial)"
    using null_core_gives_empty_500[OF n, of ApiTextToSpeech example_ext ?b]
    by (simp add: request_arg_def example_ext_def)
  from null_core_gives_empty_500[OF n, of ApiTrain example_ext ?r]
  have 1: "handler example_ext ApiTrain ?r initial = (Raise AssertionError, initial)"
    and 2: "serve example_ext (handler example_ext ApiTrain ?r) initial =
     ((Text [], 500), logger_exception example_ext ModuleLogger [] AssertionError initial)"
    by simp_all
  from null_core_gives_empty_500[OF n, of ApiTextToSpeech example_ext ?b "''invalid start byte''"] t
  have 3: "serve example_ext (handler example_ext ApiTextToSpeech ?b) initial =
     ((Text ''invalid start byte'', 500),
      logger_exception example_ext ModuleLogger ''invalid start byte''
        (UnicodeDecodeError ''invalid start byte'') initial)"
    by blast
  from n 1 2 t 3 show ?thesis by blast
qed

section \<open>Who publishes to the intent channel\<close>

lemma call_engine_published [simp]:
  "published (snd (call_engine x c s)) =
     published s @ map (Pair WS_EVENT_LOG) (fst (engine x (engine_calls s) c))"
  by (simp add: call_engine_def Let_def fold_log_published split: sum.splits)

lemma logger_debug_published [simp]:
  "published (logger_debug x lg msg s) = published s @ [(WS_EVENT_LOG, log_format x lg ''DEBUG'' msg)]"
  by (simp add: logger_debug_def add_ws_event_def)

lemma call_engine_Return:
  "snd (engine x (engine_calls s) c) = Inr v \<Longrightarrow>
   then_do (call_engine x c s) f = f v (snd (call_engine x c s))"
  by (simp add: then_do_Return call_engine_result)

lemma then_do_pure: "then_do (Return v, s) f = f v s"
  by (simp add: then_do_def)

lemma publish_and_handle_exact:
  assumes "json_dumps x intent = Inr j"
  shows "published (snd (publish_and_handle x c no_hass intent s)) =
           published s @ [(WS_EVENT_LOG, log_format x ModuleLogger ''DEBUG'' j), (WS_EVENT_INTENT, j)] @
           (if no_hass then []
            else map (Pair WS_EVENT_LOG) (fst (engine x (engine_calls s) (HandleIntent c intent))))"
    and "engine_calls (snd (publish_and_handle x c no_hass intent s)) =
           engine_calls s @ (if no_hass then [] else [HandleIntent c intent])"
    and "fst (publish_and_handle x c no_hass intent s) =
           (if no_hass then flask_jsonify x intent
            else (case snd (engine x (engine_calls s) (HandleIntent c intent)) of
                    Inl err \<Rightarrow> Raise err
                  | Inr handled \<Rightarrow>
                      (case py_getattr handled ''intent'' of
                         Raise err \<Rightarrow> Raise err
                       | Return v \<Rightarrow> flask_jsonify x v)))"
  using assms
  by (simp_all add: publish_and_handle_def Let_def then_do_fst then_do_snd call_engine_result
      add_ws_event_def split: sum.splits result.splits)

lemma api_text_to_intent_tail:
  assumes "core s = Some c"
    and "decode x (req_data req) = Inr utterance"
    and "snd (engine x (engine_calls s) (RecognizeIntent c (PStr utterance))) = Inr recognized"
    and "py_getattr recognized ''intent'' = Return (PDict d)"
  shows "api_text_to_intent x req s =
           publish_and_handle x c (arg_is_true x req ''nohass'')
             (PDict (dict_set (PStr ''time_sec'') (PFloat (req_elapsed req))
                       (dict_set (PStr ''speech_confidence'') (PInt 1) d)))
             (snd (call_engine x (RecognizeIntent c (PStr utterance)) s))"
  using assms
  by (simp add: api_text_to_intent_def assert_core_def Let_def call_engine_Return then_do_pure)

lemma api_speech_to_intent_tail:
  assumes "core s = Some c"
    and "snd (engine x (engine_calls s) (TranscribeWav c (req_data req))) = Inr transcription"
    and "py_getattr transcription ''text'' = Return words"
    and "snd (engine x (engine_calls s @ [TranscribeWav c (req_data req)]) (RecognizeIntent c words)) =
           Inr recognized"
    and "py_getattr recognized ''intent'' = Return (PDict d)"
    and "py_getattr transcription ''confidence'' = Return confidence"
  shows "api_speech_to_intent x req s =
           publish_and_handle x c (arg_is_true x req ''nohass'')
             (PDict (dict_set (PStr ''time_sec'') (PFloat (req_elapsed req))
                       (dict_set (PStr ''speech_confidence'') confidence d)))
             (snd (call_engine x (RecognizeIntent c words)
                (logger_debug x ModuleLogger (py_str x words)
                   (snd (call_engine x (TranscribeWav c (req_data req)) s)))))"
  using assms
  by (simp add: api_speech_to_intent_def assert_core_def Let_def call_engine_Return then_do_pure)

lemma api_stop_recording_tail:
  assumes "core s = Some c"
    and "snd (engine x (engine_calls s) (StopRecordingWav c (request_arg req ''name'' []))) =
           Inr recorded"
    and "py_getattr recorded ''data'' = Return audio_data"
    and "buffer_to_wav x audio_data = Inr wav_data"
    and "snd (engine x (engine_calls s @ [StopRecordingWav c (request_arg req ''name'' [])])
                (TranscribeWav c wav_data)) = Inr transcription"
    and "py_getattr transcription ''text'' = Return words"
    and "snd (engine x (engine_calls s @ [StopRecordingWav c (request_arg req ''name'' []),
                                           TranscribeWav c wav_data])
                (RecognizeIntent c words)) = Inr recognized"
    and "py_getattr recognized ''intent'' = Return (PDict d)"
    and "py_getattr transcription ''confidence'' = Return confidence"
  shows "api_stop_recording x req s =
           publish_and_handle x c (arg_is_true x req ''nohass'')
             (PDict (dict_set (PStr ''speech_confidence'') confidence d))
             (snd (call_engine x (RecognizeIntent c words)
                (logger_debug x ModuleLogger (py_str x words)
                   (snd (call_engine x (TranscribeWav c wav_data)
                      (logger_debug x ModuleLogger
                         (''Recorded '' @ py_str x (PInt (int (length wav_data))) @
                          '' byte(s) of audio data'')
                         (snd (call_engine x (StopRecordingWav c (request_arg req ''name'' [])) s))))))))"
  using assms
  by (simp add: api_stop_recording_def assert_core_def Let_def call_engine_Return then_do_pure)

lemma intent_session_eval:
  "core (ws_register WS_EVENT_INTENT 6 running) = Some 0"
  "ws_queues (ws_register WS_EVENT_INTENT 6 running) WS_EVENT_INTENT = [(6, 0)]"
  "ws_queues (ws_register WS_EVENT_INTENT 6 running) WS_EVENT_LOG = []"
  "queues (ws_register WS_EVENT_INTENT 6 running) 0 = []"
  "engine_calls (ws_register WS_EVENT_INTENT 6 running) = engine_calls running"
  "published (ws_register WS_EVENT_INTENT 6 running) = published running"
  by (simp_all add: ws_register_def Let_def running_eval)

lemmas handler_eval = assert_core_def then_do_def call_engine_def Let_def publish_and_handle_def
  example_ext_def example_engine_def example_dumps_def add_ws_event_def logger_debug_def
  queue_put_def arg_is_true_def request_arg_def flask_jsonify_def


text \<open>
  C5, as the claim states it, fails: a request to \<^verbatim>\<open>/api/text-to-intent\<close> publishes to the
  intent channel from the request handler itself; the observer takes no part in it.
\<close>

theorem handler_publishes_intent_counterexample:
  "mailbox (ws_register WS_EVENT_INTENT 6 running) WS_EVENT_INTENT 6 = Some [] \<and>
   fst (api_text_to_intent example_ext
          \<lparr>req_data = ''on'', req_args = [(''nohass'', ''true'')], req_elapsed = 1 / 2\<rparr>
          (ws_register WS_EVENT_INTENT 6 running)) =
     Return (Json (PDict [(PStr ''text'', PStr ''on''), (PStr ''speech_confidence'', PInt 1),
                          (PStr ''time_sec'', PFloat (1 / 2))])) \<and>
   mailbox (snd (api_text_to_intent example_ext
                   \<lparr>req_data = ''on'', req_args = [(''nohass'', ''true'')], req_elapsed = 1 / 2\<rparr>
                   (ws_register WS_EVENT_INTENT 6 running))) WS_EVENT_INTENT 6 =
     Some [''{\"text\": \"on\", \"speech_confidence\": 1, \"time_sec\": 0.5}''] \<and>
   engine_calls (snd (api_text_to_intent example_ext
                   \<lparr>req_data = ''on'', req_args = [(''nohass'', ''true'')], req_elapsed = 1 / 2\<rparr>
                   (ws_register WS_EVENT_INTENT 6 running))) =
     engine_calls running @ [RecognizeIntent 0 (PStr ''on'')]"
  by (simp add: mailbox_def api_text_to_intent_def intent_session_eval key_eq_def handler_eval)


text \<open>
  C5, amended. The observer is not the only producer on the intent channel:
  \<^verbatim>\<open>api_text_to_intent\<close>, \<^verbatim>\<open>api_speech_to_intent\<close> and \<^verbatim>\<open>api_stop_recording\<close> publish the
  intent they have had recognised themselves. With an engine running, when the engine
  calls up to \<^verbatim>\<open>recognize_intent\<close> return, its result has a dict as \<^verbatim>\<open>intent\<close> and
  \<^verbatim>\<open>json.dumps\<close> returns, the handler publishes, beside the log lines of the engine calls and
  its own, exactly one message to the intent channel: the JSON text of that dict with
  \<^verbatim>\<open>speech_confidence\<close> (and, in the first two handlers, \<^verbatim>\<open>time_sec\<close>) set. The calls it
  makes into the engine are the ones up to \<^verbatim>\<open>recognize_intent\<close> and, unless \<^verbatim>\<open>nohass\<close> is
  set, \<^verbatim>\<open>handle_intent\<close> on the published dict; its answer is what \<^verbatim>\<open>jsonify\<close> makes of
  the published dict when \<^verbatim>\<open>nohass\<close> is set, and of the \<^verbatim>\<open>intent\<close> of what \<^verbatim>\<open>handle_intent\<close>
  returns otherwise.
\<close>

theorem request_handlers_publish_intents:
  assumes c: "core s = Some c"
    and j: "json_dumps x intent = Inr j"
  shows
   "(decode x (req_data req) = Inr utterance \<and>
     snd (engine x (engine_calls s) (RecognizeIntent c (PStr utterance))) = Inr recognized \<and>
     py_getattr recognized ''intent'' = Return (PDict d) \<and>
     intent = PDict (dict_set (PStr ''time_sec'') (PFloat (req_elapsed req))
                       (dict_set (PStr ''speech_confidence'') (PInt 1) d)) \<longrightarrow>
       published (snd (api_text_to_intent x req s)) =
         published s @
         map (Pair WS_EVENT_LOG) (fst (engine x (engine_calls s) (RecognizeIntent c (PStr utterance)))) @
         [(WS_EVENT_LOG, log_format x ModuleLogger ''DEBUG'' j), (WS_EVENT_INTENT, j)] @
         (if arg_is_true x req ''nohass'' then []
          else map (Pair WS_EVENT_LOG)
                 (fst (engine x (engine_calls s @ [RecognizeIntent c (PStr utterance)])
                         (HandleIntent c intent)))) \<and>
       engine_calls (snd (api_text_to_intent x req s)) =
         engine_calls s @ [RecognizeIntent c (PStr utterance)] @
         (if arg_is_true x req ''nohass'' then [] else [HandleIntent c intent]) \<and>
       fst (api_text_to_intent x req s) =
         (if arg_is_true x req ''nohass'' then flask_jsonify x intent
          else (case snd (engine x (engine_calls s @ [RecognizeIntent c (PStr utterance)])
                            (HandleIntent c intent)) of
                  Inl err \<Rightarrow> Raise err
                | Inr handled \<Rightarrow>
                    (case py_getattr handled ''intent'' of
                       Raise err \<Rightarrow> Raise err
                     | Return v \<Rightarrow> flask_jsonify x v)))) \<and>
    (snd (engine x (engine_calls s) (TranscribeWav c (req_data req))) = Inr transcription \<and>
     py_getattr transcription ''text'' = Return words \<and>
     snd (engine x (engine_calls s @ [TranscribeWav c (req_data req)]) (RecognizeIntent c words)) =
       Inr recognized \<and>
     py_getattr recognized ''intent'' = Return (PDict d) \<and>
     py_getattr transcription ''confidence'' = Return confidence \<and>
     intent = PDict (dict_set (PStr ''time_sec'') (PFloat (req_elapsed req))
                       (dict_set (PStr ''speech_confidence'') confidence d)) \<longrightarrow>
       published (snd (api_speech_to_intent x req s)) =
         published s @
         map (Pair WS_EVENT_LOG) (fst (engine x (engine_calls s) (TranscribeWav c (req_data req)))) @
         [(WS_EVENT_LOG, log_format x ModuleLogger ''DEBUG'' (py_str x words))] @
         map (Pair WS_EVENT_LOG)
           (fst (engine x (engine_calls s @ [TranscribeWav c (req_data req)]) (RecognizeIntent c words))) @
         [(WS_EVENT_LOG, log_format x ModuleLogger ''DEBUG'' j), (WS_EVENT_INTENT, j)] @
         (if arg_is_true x req ''nohass'' then []
          else map (Pair WS_EVENT_LOG)
                 (fst (engine x (engine_calls s @ [TranscribeWav c (req_data req), RecognizeIntent c words])
                         (HandleIntent c intent)))) \<and>
       engine_calls (snd (api_speech_to_intent x req s)) =
         engine_calls s @ [TranscribeWav c (req_data req), RecognizeIntent c words] @
         (if arg_is_true x req ''nohass'' then [] else [HandleIntent c intent]) \<and>
       fst (api_speech_to_intent x req s) =
         (if arg_is_true x req ''nohass'' then flask_jsonify x intent
          else (case snd (engine x (engine_calls s @ [TranscribeWav c (req_data req),
                                                        RecognizeIntent c words])
                            (HandleIntent c intent)) of
                  Inl err \<Rightarrow> Raise err
                | Inr handled \<Rightarrow>
                    (case py_getattr handled ''intent'' of
                       Raise err \<Rightarrow> Raise err
                     | Return v \<Rightarrow> flask_jsonify x v)))) \<and>
    (snd (engine x (engine_calls s) (StopRecordingWav c (request_arg req ''name'' []))) = Inr recorded \<and>
     py_getattr recorded ''data'' = Return audio_data \<and>
     buffer_to_wav x audio_data = Inr wav_data \<and>
     snd (engine x (engine_calls s @ [StopRecordingWav c (request_arg req ''name'' [])])
            (TranscribeWav c wav_data)) = Inr transcription \<and>
     py_getattr transcription ''text'' = Return words \<and>
     snd (engine x (engine_calls s @ [StopRecordingWav c (request_arg req ''name'' []),
                                       TranscribeWav c wav_data])
            (RecognizeIntent c words)) = Inr recognized \<and>
     py_getattr recognized ''intent'' = Return (PDict d) \<and>
     py_getattr transcription ''confidence'' = Return confidence \<and>
     intent = PDict (dict_set (PStr ''speech_confidence'') confidence d) \<longrightarrow>
       published (snd (api_stop_recording x req s)) =
         published s @
         map (Pair WS_EVENT_LOG)
           (fst (engine x (engine_calls s) (StopRecordingWav c (request_arg req ''name'' [])))) @
         [(WS_EVENT_LOG, log_format x ModuleLogger ''DEBUG''
             (''Recorded '' @ py_str x (PInt (int (length wav_data))) @ '' byte(s) of audio data''))] @
         map (Pair WS_EVENT_LOG)
           (fst (engine x (engine_calls s @ [StopRecordingWav c (request_arg req ''name'' [])])
                   (TranscribeWav c wav_data))) @
         [(WS_EVENT_LOG, log_format x ModuleLogger ''DEBUG'' (py_str x words))] @
         map (Pair WS_EVENT_LOG)
           (fst (engine x (engine_calls s @ [StopRecordingWav c (request_arg req ''name'' []),
                                              TranscribeWav c wav_data])
                   (RecognizeIntent c words))) @
         [(WS_EVENT_LOG, log_format x ModuleLogger ''DEBUG'' j), (WS_EVENT_INTENT, j)] @
         (if arg_is_true x req ''nohass'' then []
          else map (Pair WS_EVENT_LOG)
                 (fst (engine x (engine_calls s @ [StopRecordingWav c (request_arg req ''name'' []),
                                                    TranscribeWav c wav_data, RecognizeIntent c words])
                         (HandleIntent c intent)))) \<and>
       engine_calls (snd (api_stop_recording x req s)) =
         engine_calls s @ [StopRecordingWav c (request_arg req ''name'' []),
                           TranscribeWav c wav_data, RecognizeIntent c words] @
         (if arg_is_true x req ''nohass'' then [] else [HandleIntent c intent]) \<and>
       fst (api_stop_recording x req s) =
         (if arg_is_true x req ''nohass'' then flask_jsonify x intent
          else (case snd (engine x (engine_calls s @ [StopRecordingWav c (request_arg req ''name'' []),
                                                        TranscribeWav c wav_data,
                                                        RecognizeIntent c words])
                            (HandleIntent c intent)) of
                  Inl err \<Rightarrow> Raise err
                | Inr handled \<Rightarrow>
                    (case py_getattr handled ''intent'' of
                       Raise err \<Rightarrow> Raise err
                     | Return v \<Rightarrow> flask_jsonify x v))))"
proof (intro conjI impI; elim conjE)
  assume h: "decode x (req_data req) = Inr utterance"
    "snd (engine x (engine_calls s) (RecognizeIntent c (PStr utterance))) = Inr recognized"
    "py_getattr recognized ''intent'' = Return (PDict d)"
    and i: "intent = PDict (dict_set (PStr ''time_sec'') (PFloat (req_elapsed req))
                       (dict_set (PStr ''speech_confidence'') (PInt 1) d))"
  note t = api_text_to_intent_tail[OF c h, folded i]
  show "published (snd (api_text_to_intent x req s)) =
         published s @
         map (Pair WS_EVENT_LOG) (fst (engine x (engine_calls s) (RecognizeIntent c (PStr utterance)))) @
         [(WS_EVENT_LOG, log_format x ModuleLogger ''DEBUG'' j), (WS_EVENT_INTENT, j)] @
         (if arg_is_true x req ''nohass'' then []
          else map (Pair WS_EVENT_LOG)
                 (fst (engine x (engine_calls s @ [RecognizeIntent c (PStr utterance)])
                         (HandleIntent c intent))))"
    unfolding t publish_and_handle_exact(1)[OF j] by simp
  show "engine_calls (snd (api_text_to_intent x req s)) =
         engine_calls s @ [RecognizeIntent c (PStr utterance)] @
         (if arg_is_true x req ''nohass'' then [] else [HandleIntent c intent])"
    unfolding t publish_and_handle_exact(2)[OF j] by simp
  show "fst (api_text_to_intent x req s) =
         (if arg_is_true x req ''nohass'' then flask_jsonify x intent
          else (case snd (engine x (engine_calls s @ [RecognizeIntent c (PStr utterance)])
                            (HandleIntent c intent)) of
                  Inl err \<Rightarrow> Raise err
                | Inr handled \<Rightarrow>
                    (case py_getattr handled ''intent'' of
                       Raise err \<Rightarrow> Raise err
                     | Return v \<Rightarrow> flask_jsonify x v)))"
    unfolding t publish_and_handle_exact(3)[OF j] by simp
next
  assume h: "snd (engine x (engine_calls s) (TranscribeWav c (req_data req))) = Inr transcription"
    "py_getattr transcription ''text'' = Return words"
    "snd (engine x (engine_calls s @ [TranscribeWav c (req_data req)]) (RecognizeIntent c words)) =
       Inr recognized"
    "py_getattr recognized ''intent'' = Return (PDict d)"
    "py_getattr transcription ''confidence'' = Return confidence"
    and i: "intent = PDict (dict_set (PStr ''time_sec'') (PFloat (req_elapsed req))
                       (dict_set (PStr ''speech_confidence'') confidence d))"
  note t = api_speech_to_intent_tail[OF c h, folded i]
  show "published (snd (api_speech_to_intent x req s)) =
         published s @
         map (Pair WS_EVENT_LOG) (fst (engine x (engine_calls s) (TranscribeWav c (req_data req)))) @
         [(WS_EVENT_LOG, log_format x ModuleLogger ''DEBUG'' (py_str x words))] @
         map (Pair WS_EVENT_LOG)
           (fst (engine x (engine_calls s @ [TranscribeWav c (req_data req)]) (RecognizeIntent c words))) @
         [(WS_EVENT_LOG, log_format x ModuleLogger ''DEBUG'' j), (WS_EVENT_INTENT, j)] @
         (if arg_is_true x req ''nohass'' then []
          else map (Pair WS_EVENT_LOG)
                 (fst (engine x (engine_calls s @ [TranscribeWav c (req_data req), RecognizeIntent c words])
                         (HandleIntent c intent))))"
    unfolding t publish_and_handle_exact(1)[OF j] by simp
  show "engine_calls (snd (api_speech_to_intent x req s)) =
         engine_calls s @ [TranscribeWav c (req_data req), RecognizeIntent c words] @
         (if arg_is_true x req ''nohass'' then [] else [HandleIntent c intent])"
    unfolding t publish_and_handle_exact(2)[OF j] by simp
  show "fst (api_speech_to_intent x req s) =
         (if arg_is_true x req ''nohass'' then flask_jsonify x intent
          else (case snd (engine x (engine_calls s @ [TranscribeWav c (req_data req),
                                                        RecognizeIntent c words])
                            (HandleIntent c intent)) of
                  Inl err \<Rightarrow> Raise err
                | Inr handled \<Rightarrow>
                    (case py_getattr handled ''intent'' of
                       Raise err \<Rightarrow> Raise err
                     | Return v \<Rightarrow> flask_jsonify x v)))"
    unfolding t publish_and_handle_exact(3)[OF j] by simp
next
  assume h: "snd (engine x (engine_calls s) (StopRecordingWav c (request_arg req ''name'' []))) = Inr recorded"
    "py_getattr recorded ''data'' = Return audio_data"
    "buffer_to_wav x audio_data = Inr wav_data"
    "snd (engine x (engine_calls s @ [StopRecordingWav c (request_arg req ''name'' [])])
            (TranscribeWav c wav_data)) = Inr transcription"
    "py_getattr transcription ''text'' = Return words"
    "snd (engine x (engine_calls s @ [StopRecordingWav c (request_arg req ''name'' []),
                                       TranscribeWav c wav_data])
            (RecognizeIntent c words)) = Inr recognized"
    "py_getattr recognized ''intent'' = Return (PDict d)"
    "py_getattr transcription ''confidence'' = Return confidence"
    and i: "intent = PDict (dict_set (PStr ''speech_confidence'') confidence d)"
  note t = api_stop_recording_tail[OF c h, folded i]
  show "published (snd (api_stop_recording x req s)) =
         published s @
         map (Pair WS_EVENT_LOG)
           (fst (engine x (engine_calls s) (StopRecordingWav c (request_arg req ''name'' [])))) @
         [(WS_EVENT_LOG, log_format x ModuleLogger ''DEBUG''
             (''Recorded '' @ py_str x (PInt (int (length wav_data))) @ '' byte(s) of audio data''))] @
         map (Pair WS_EVENT_LOG)
           (fst (engine x (engine_calls s @ [StopRecordingWav c (request_arg req ''name'' [])])
                   (TranscribeWav c wav_data))) @
         [(WS_EVENT_LOG, log_format x ModuleLogger ''DEBUG'' (py_str x words))] @
         map (Pair WS_EVENT_LOG)
           (fst (engine x (engine_calls s @ [StopRecordingWav c (request_arg req ''name'' []),
                                              TranscribeWav c wav_data])
                   (RecognizeIntent c words))) @
         [(WS_EVENT_LOG, log_format x ModuleLogger ''DEBUG'' j), (WS_EVENT_INTENT, j)] @
         (if arg_is_true x req ''nohass'' then []
          else map (Pair WS_EVENT_LOG)
                 (fst (engine x (engine_calls s @ [StopRecordingWav c (request_arg req ''name'' []),
                                                    TranscribeWav c wav_data, RecognizeIntent c words])
                         (HandleIntent c intent))))"
    unfolding t publish_and_handle_exact(1)[OF j] by simp
  show "engine_calls (snd (api_stop_recording x req s)) =
         engine_calls s @ [StopRecordingWav c (request_arg req ''name'' []),
                           TranscribeWav c wav_data, RecognizeIntent c words] @
         (if arg_is_true x req ''nohass'' then [] else [HandleIntent c intent])"
    unfolding t publish_and_handle_exact(2)[OF j] by simp
  show "fst (api_stop_recording x req s) =
         (if arg_is_true x req ''nohass'' then flask_jsonify x intent
          else (case snd (engine x (engine_calls s @ [StopRecordingWav c (request_arg req ''name'' []),
                                                        TranscribeWav c wav_data,
                                                        RecognizeIntent c words])
                            (HandleIntent c intent)) of
                  Inl err \<Rightarrow> Raise err
                | Inr handled \<Rightarrow>
                    (case py_getattr handled ''intent'' of
                       Raise err \<Rightarrow> Raise err
                     | Return v \<Rightarrow> flask_jsonify x v)))"
    unfolding t publish_and_handle_exact(3)[OF j] by simp
qed

theorem request_handlers_publish_intents_witness:
  "core (ws_register WS_EVENT_INTENT 6 running) = Some 0 \<and>
   json_dumps example_ext
     (PDict [(PStr ''text'', PStr ''on''), (PStr ''speech_confidence'', PInt 1),
             (PStr ''time_sec'', PFloat (1 / 2))]) =
     Inr ''{\"text\": \"on\", \"speech_confidence\": 1, \"time_sec\": 0.5}'' \<and>
   json_dumps example_ext (PDict [(PStr ''text'', PStr ''on''), (PStr ''speech_confidence'', PInt 1)]) =
     Inr ''{\"text\": \"on\", \"speech_confidence\": 1}'' \<and>
   published (snd (api_text_to_intent example_ext
                \<lparr>req_data = ''on'', req_args = [(''nohass'', ''true'')], req_elapsed = 1 / 2\<rparr>
                (ws_register WS_EVENT_INTENT 6 running))) =
     published running @
     [(WS_EVENT_LOG, ''DEBUG {\"text\": \"on\", \"speech_confidence\": 1, \"time_sec\": 0.5}''),
      (WS_EVENT_INTENT, ''{\"text\": \"on\", \"speech_confidence\": 1, \"time_sec\": 0.5}'')] \<and>
   fst (api_text_to_intent example_ext
          \<lparr>req_data = ''on'', req_args = [(''nohass'', ''true'')], req_elapsed = 1 / 2\<rparr>
          (ws_register WS_EVENT_INTENT 6 running)) =
     Return (Json (PDict [(PStr ''text'', PStr ''on''), (PStr ''speech_confidence'', PInt 1),
                          (PStr ''time_sec'', PFloat (1 / 2))])) \<and>
   published (snd (api_speech_to_intent example_ext
                \<lparr>req_data = ''RIFF'', req_args = [], req_elapsed = 1 / 2\<rparr>
                (ws_register WS_EVENT_INTENT 6 running))) =
     published running @
     [(WS_EVENT_LOG, ''DEBUG on''),
      (WS_EVENT_LOG, ''DEBUG {\"text\": \"on\", \"speech_confidence\": 1, \"time_sec\": 0.5}''),
      (WS_EVENT_INTENT, ''{\"text\": \"on\", \"speech_confidence\": 1, \"time_sec\": 0.5}'')] \<and>
   engine_calls (snd (api_speech_to_intent example_ext
                \<lparr>req_data = ''RIFF'', req_args = [], req_elapsed = 1 / 2\<rparr>
                (ws_register WS_EVENT_INTENT 6 running))) =
     engine_calls running @
     [TranscribeWav 0 ''RIFF'', RecognizeIntent 0 (PStr ''on''),
      HandleIntent 0 (PDict [(PStr ''text'', PStr ''on''), (PStr ''speech_confidence'', PInt 1),
                             (PStr ''time_sec'', PFloat (1 / 2))])] \<and>
   fst (api_speech_to_intent example_ext
          \<lparr>req_data = ''RIFF'', req_args = [], req_elapsed = 1 / 2\<rparr>
          (ws_register WS_EVENT_INTENT 6 running)) =
     Return (Json (PDict [(PStr ''text'', PStr ''on''), (PStr ''speech_confidence'', PInt 1),
                          (PStr ''time_sec'', PFloat (1 / 2))])) \<and>
   published (snd (api_stop_recording example_ext
                \<lparr>req_data = [], req_args = [(''nohass'', ''true'')], req_elapsed = 0\<rparr>
                (ws_register WS_EVENT_INTENT 6 running))) =
     published running @
     [(WS_EVENT_LOG, ''DEBUG Recorded 0 byte(s) of audio data''),
      (WS_EVENT_LOG, ''DEBUG on''),
      (WS_EVENT_LOG, ''DEBUG {\"text\": \"on\", \"speech_confidence\": 1}''),
      (WS_EVENT_INTENT, ''{\"text\": \"on\", \"speech_confidence\": 1}'')] \<and>
   fst (api_stop_recording example_ext
          \<lparr>req_data = [], req_args = [(''nohass'', ''true'')], req_elapsed = 0\<rparr>
          (ws_register WS_EVENT_INTENT 6 running)) =
     Return (Json (PDict [(PStr ''text'', PStr ''on''), (PStr ''speech_confidence'', PInt 1)]))"
proof -
  let ?s = "ws_register WS_EVENT_INTENT 6 running"
  let ?i = "PDict [(PStr ''text'', PStr ''on''), (PStr ''speech_confidence'', PInt 1),
                   (PStr ''time_sec'', PFloat (1 / 2))]"
  let ?i3 = "PDict [(PStr ''text'', PStr ''on''), (PStr ''speech_confidence'', PInt 1)]"
  let ?j = "''{\"text\": \"on\", \"speech_confidence\": 1, \"time_sec\": 0.5}''"
  let ?j3 = "''{\"text\": \"on\", \"speech_confidence\": 1}''"
  let ?r1 = "\<lparr>req_data = ''on'', req_args = [(''nohass'', ''true'')], req_elapsed = 1 / 2\<rparr>"
  let ?r2 = "\<lparr>req_data = ''RIFF'', req_args = [], req_elapsed = 1 / 2\<rparr>"
  let ?r3 = "\<lparr>req_data = [], req_args = [(''nohass'', ''true'')], req_elapsed = 0\<rparr>"
  let ?rec = "PDict [(PStr ''intent'', PDict [(PStr ''text'', PStr ''on'')])]"
  let ?tr = "PDict [(PStr ''text'', PStr ''on''), (PStr ''confidence'', PInt 1)]"
  have c: "core ?s = Some 0" by (rule intent_session_eval)
  have p: "published ?s = published running" "engine_calls ?s = engine_calls running"
    by (rule intent_session_eval)+
  have j: "json_dumps example_ext ?i = Inr ?j"
    by (simp add: example_ext_def example_dumps_def)
  have j3: "json_dumps example_ext ?i3 = Inr ?j3"
    by (simp add: example_ext_def example_dumps_def)
  have e: "\<And>calls. engine example_ext calls (RecognizeIntent 0 (PStr ''on'')) = ([], Inr ?rec)"
    "\<And>calls wav. engine example_ext calls (TranscribeWav 0 wav) = ([], Inr ?tr)"
    "\<And>calls name. engine example_ext calls (StopRecordingWav 0 name) =
        ([], Inr (PDict [(PStr ''data'', PStr [])]))"
    "\<And>calls v. engine example_ext calls (HandleIntent 0 v) = ([], Inr (PDict [(PStr ''intent'', v)]))"
    by (simp_all add: example_ext_def example_engine_def)
  have g: "py_getattr ?rec ''intent'' = Return (PDict [(PStr ''text'', PStr ''on'')])"
    "py_getattr ?tr ''text'' = Return (PStr ''on'')"
    "py_getattr ?tr ''confidence'' = Return (PInt 1)"
    "py_getattr (PDict [(PStr ''data'', PStr [])]) ''data'' = Return (PStr [])"
    "py_getattr (PDict [(PStr ''intent'', ?i)]) ''intent'' = Return ?i"
    by (simp_all add: key_eq_def)
  have d: "?i = PDict (dict_set (PStr ''time_sec'') (PFloat (req_elapsed ?r1))
                       (dict_set (PStr ''speech_confidence'') (PInt 1) [(PStr ''text'', PStr ''on'')]))"
    "?i = PDict (dict_set (PStr ''time_sec'') (PFloat (req_elapsed ?r2))
                       (dict_set (PStr ''speech_confidence'') (PInt 1) [(PStr ''text'', PStr ''on'')]))"
    "?i3 = PDict (dict_set (PStr ''speech_confidence'') (PInt 1) [(PStr ''text'', PStr ''on'')])"
    by (simp_all add: key_eq_def)
  have x: "decode example_ext (req_data ?r1) = Inr ''on''"
    "buffer_to_wav example_ext (PStr []) = Inr []"
    "arg_is_true example_ext ?r1 ''nohass''" "\<not> arg_is_true example_ext ?r2 ''nohass''"
    "arg_is_true example_ext ?r3 ''nohass''"
    "request_arg ?r3 ''name'' [] = []"
    "log_format example_ext ModuleLogger ''DEBUG'' = (\<lambda>msg. ''DEBUG '' @ msg)"
    "py_str example_ext (PStr ''on'') = ''on''" "py_str example_ext (PInt 0) = ''0''"
    "\<And>v. flask_jsonify example_ext v = Return (Json v)"
    by (simp_all add: example_ext_def arg_is_true_def request_arg_def flask_jsonify_def)
  have 1: "published (snd (api_text_to_intent example_ext ?r1 ?s)) =
             published running @ [(WS_EVENT_LOG, ''DEBUG '' @ ?j), (WS_EVENT_INTENT, ?j)] \<and>
           fst (api_text_to_intent example_ext ?r1 ?s) = Return (Json ?i)"
    using request_handlers_publish_intents[OF c j, where req="?r1" and utterance="''on''"
        and recognized="?rec" and d="[(PStr ''text'', PStr ''on'')]"]
      x(1) e(1) g(1) d(1) x(3) p
    by (simp add: x(7) x(10))
  have 2: "published (snd (api_speech_to_intent example_ext ?r2 ?s)) =
             published running @ [(WS_EVENT_LOG, ''DEBUG on''),
               (WS_EVENT_LOG, ''DEBUG '' @ ?j), (WS_EVENT_INTENT, ?j)] \<and>
           engine_calls (snd (api_speech_to_intent example_ext ?r2 ?s)) =
             engine_calls running @
               [TranscribeWav 0 ''RIFF'', RecognizeIntent 0 (PStr ''on''), HandleIntent 0 ?i] \<and>
           fst (api_speech_to_intent example_ext ?r2 ?s) = Return (Json ?i)"
    using request_handlers_publish_intents[OF c j, where req="?r2" and transcription="?tr"
        and words="PStr ''on''" and confidence="PInt 1"
        and recognized="?rec" and d="[(PStr ''text'', PStr ''on'')]"]
      e g d(2) x(4) p
    by (simp add: x(7) x(8) x(10))
  have 3: "published (snd (api_stop_recording example_ext ?r3 ?s)) =
             published running @ [(WS_EVENT_LOG, ''DEBUG Recorded 0 byte(s) of audio data''),
               (WS_EVENT_LOG, ''DEBUG on''),
               (WS_EVENT_LOG, ''DEBUG '' @ ?j3), (WS_EVENT_INTENT, ?j3)] \<and>
           fst (api_stop_recording example_ext ?r3 ?s) = Return (Json ?i3)"
    using request_handlers_publish_intents[OF c j3, where req="?r3" and transcription="?tr"
        and words="PStr ''on''" and confidence="PInt 1" and recorded="PDict [(PStr ''data'', PStr [])]"
        and audio_data="PStr []" and wav_data="[]"
        and recognized="?rec" and d="[(PStr ''text'', PStr ''on'')]"]
      e g d(3) x(5) x(6) x(2) p
    by (simp add: x(7) x(8) x(9) x(10))
  from c j j3 1 2 3 show ?thesis by simp
qed

section \<open>The observer's notification\<close>

lemma key_eq_refl [simp]: "key_eq k k"
  by (simp add: key_eq_def split: option.splits)

lemma key_eq_sym: "key_eq a b \<Longrightarrow> key_eq b a"
  by (auto simp: key_eq_def split: option.splits)

lemma key_eq_trans: "key_eq a b \<Longrightarrow> key_eq b c \<Longrightarrow> key_eq a c"
  by (auto simp: key_eq_def split: option.splits)

lemma dict_get_set:
  "dict_get (dict_set k v d) q = (if key_eq k q then Some v else dict_get d q)"
proof (induction d)
  case Nil
  then show ?case by simp
next
  case (Cons p d)
  obtain k' v' where p: "p = (k', v')" by (cases p)
  show ?case
  proof (cases "key_eq k' k")
    case True
    then have "key_eq k' q \<longleftrightarrow> key_eq k q"
      by (meson key_eq_sym key_eq_trans)
    with True p show ?thesis by simp
  next
    case False
    then have "\<not> (key_eq k' q \<and> key_eq k q)"
      by (meson key_eq_sym key_eq_trans)
    with False p Cons.IH show ?thesis by auto
  qed
qed

lemma entity_ok_items:
  assumes "entity_ok ev"
  obtains k v where "py_getitem ev ''value'' = Return v" "py_getitem ev ''entity'' = Return k"
    "hashable k" "entity_name ev = Some k" "entity_value ev = Some v"
  using assms by (cases ev) (auto simp: entity_ok_def split: option.splits)

lemma intent_slots_loop_last:
  assumes "list_all entity_ok evs"
  shows "\<exists>slots. intent_slots_loop evs acc = Return slots \<and>
           (\<forall>q. dict_get slots q =
                  (case last_value q evs of Some v \<Rightarrow> Some v | None \<Rightarrow> dict_get acc q))"
  using assms
proof (induction evs arbitrary: acc)
  case Nil
  then show ?case by simp
next
  case (Cons ev evs)
  from Cons.prems have ok: "entity_ok ev" and rest: "list_all entity_ok evs" by simp_all
  from ok obtain k v where it: "py_getitem ev ''value'' = Return v"
    "py_getitem ev ''entity'' = Return k" "hashable k"
    "entity_name ev = Some k" "entity_value ev = Some v"
    by (rule entity_ok_items)
  from Cons.IH[OF rest, of "dict_set k v acc"] obtain slots
    where l: "intent_slots_loop evs (dict_set k v acc) = Return slots"
      and g: "\<And>q. dict_get slots q =
            (case last_value q evs of Some w \<Rightarrow> Some w | None \<Rightarrow> dict_get (dict_set k v acc) q)"
    by blast
  have "intent_slots_loop (ev # evs) acc = Return slots" using it l by simp
  moreover have "dict_get slots q =
      (case last_value q (ev # evs) of Some w \<Rightarrow> Some w | None \<Rightarrow> dict_get acc q)" for q
    using g[of q] it by (simp add: dict_get_set split: option.splits)
  ultimately show ?case by blast
qed

lemma last_value_named:
  "ev \<in> set evs \<Longrightarrow> entity_ok ev \<Longrightarrow> entity_name ev = Some k \<Longrightarrow> last_value k evs \<noteq> None"
proof (induction evs)
  case Nil
  then show ?case by simp
next
  case (Cons a evs)
  then show ?case by (auto simp: entity_ok_def split: option.splits)
qed

lemma last_value_from_entity:
  "last_value k evs = Some v \<Longrightarrow>
     \<exists>ev \<in> set evs. \<exists>k'. entity_name ev = Some k' \<and> key_eq k' k \<and> entity_value ev = Some v"
proof (induction evs)
  case Nil
  then show ?case by simp
next
  case (Cons a evs)
  then show ?case by (auto split: option.splits if_splits)
qed

lemma in_started_eval:
  assumes ents: "(case dict_get intent (PStr ''entities'') of None \<Rightarrow> PList [] | Some v \<Rightarrow> v) = PList evs"
    and l: "intent_slots_loop evs [] = Return slots"
    and j: "json_dumps x (PDict (dict_set (PStr ''slots'') (PDict slots) intent)) = Inr j"
  shows "in_started x (IntentRecognized intent) s =
           (case snd (requests_get x) of
              Some err \<Rightarrow> Raise err
            | None \<Rightarrow> Return (Some (dict_set (PStr ''slots'') (PDict slots) intent)),
            fold (add_ws_event WS_EVENT_LOG) (fst (requests_get x))
              (add_ws_event WS_EVENT_INTENT j (logger_debug x ActorLogger j s)))"
  using ents l j by (simp add: in_started_def then_do_def Let_def split: option.splits)

lemma in_started_published:
  "published (fold (add_ws_event WS_EVENT_LOG) lines
       (add_ws_event WS_EVENT_INTENT j (logger_debug x ActorLogger j s))) =
     published s @ [(WS_EVENT_LOG, log_format x ActorLogger ''DEBUG'' j), (WS_EVENT_INTENT, j)] @
       map (Pair WS_EVENT_LOG) lines"
  by (simp add: fold_log_published) (simp add: add_ws_event_def logger_debug_def)

lemma two_colors_eval:
  "(case dict_get [(PStr ''entities'',
        PList [PDict [(PStr ''entity'', PStr ''color''), (PStr ''value'', PStr ''red'')],
               PDict [(PStr ''entity'', PStr ''color''), (PStr ''value'', PStr ''blue'')]])]
        (PStr ''entities'') of None \<Rightarrow> PList [] | Some v \<Rightarrow> v) =
     PList [PDict [(PStr ''entity'', PStr ''color''), (PStr ''value'', PStr ''red'')],
            PDict [(PStr ''entity'', PStr ''color''), (PStr ''value'', PStr ''blue'')]]"
  "list_all entity_ok
     [PDict [(PStr ''entity'', PStr ''color''), (PStr ''value'', PStr ''red'')],
      PDict [(PStr ''entity'', PStr ''color''), (PStr ''value'', PStr ''blue'')]]"
  "intent_slots_loop
     [PDict [(PStr ''entity'', PStr ''color''), (PStr ''value'', PStr ''red'')],
      PDict [(PStr ''entity'', PStr ''color''), (PStr ''value'', PStr ''blue'')]] [] =
     Return [(PStr ''color'', PStr ''blue'')]"
  "json_dumps example_ext (PDict (dict_set (PStr ''slots'') (PDict [(PStr ''color'', PStr ''blue'')])
     [(PStr ''entities'',
        PList [PDict [(PStr ''entity'', PStr ''color''), (PStr ''value'', PStr ''red'')],
               PDict [(PStr ''entity'', PStr ''color''), (PStr ''value'', PStr ''blue'')]])])) =
     Inr ''{\"entities\": [{\"entity\": \"color\", \"value\": \"red\"}, {\"entity\": \"color\", \"value\": \"blue\"}], \"slots\": {\"color\": \"blue\"}}''"
  "last_value (PStr ''color'')
     [PDict [(PStr ''entity'', PStr ''color''), (PStr ''value'', PStr ''red'')],
      PDict [(PStr ''entity'', PStr ''color''), (PStr ''value'', PStr ''blue'')]] =
     Some (PStr ''blue'')"
  by (simp_all add: key_eq_def entity_ok_def example_ext_def example_dumps_def)


text \<open>
  C6. Take an \<^verbatim>\<open>IntentRecognized\<close> notification whose entity list (the empty list when the
  payload has none) is a list of structured entities. Then the loop of \<^verbatim>\<open>in_started\<close> returns
  a flat map whose keys are the entity names and whose values are values of entities of
  that name; it is stored in the payload under \<^verbatim>\<open>"slots"\<close>, the other keys keeping their
  values; and when \<^verbatim>\<open>json.dumps\<close> returns the text \<open>j\<close> for that payload, the callback has
  made one publish of \<open>j\<close> to the intent channel by the time it is left, whether it
  returns or the ping that follows the publish raises: what it has published is the log
  line of its \<^verbatim>\<open>debug\<close> call, then \<open>j\<close> to the intent channel, then the log lines emitted
  while the ping runs, and nothing else.
\<close>

theorem in_started_publishes_once:
  assumes ents: "(case dict_get intent (PStr ''entities'') of None \<Rightarrow> PList [] | Some v \<Rightarrow> v) = PList evs"
    and wf: "list_all entity_ok evs"
  shows "\<exists>slots. intent_slots_loop evs [] = Return slots \<and>
           (\<forall>ev \<in> set evs. \<exists>k. entity_name ev = Some k \<and> dict_get slots k \<noteq> None) \<and>
           (\<forall>k v. dict_get slots k = Some v \<longrightarrow>
              (\<exists>ev \<in> set evs. \<exists>k'. entity_name ev = Some k' \<and> key_eq k' k \<and>
                 entity_value ev = Some v)) \<and>
           dict_get (dict_set (PStr ''slots'') (PDict slots) intent) (PStr ''slots'') =
             Some (PDict slots) \<and>
           (\<forall>k. \<not> key_eq (PStr ''slots'') k \<longrightarrow>
              dict_get (dict_set (PStr ''slots'') (PDict slots) intent) k = dict_get intent k) \<and>
           (\<forall>j. json_dumps x (PDict (dict_set (PStr ''slots'') (PDict slots) intent)) = Inr j \<longrightarrow>
              snd (in_started x (IntentRecognized intent) s) =
                fold (add_ws_event WS_EVENT_LOG) (fst (requests_get x))
                  (add_ws_event WS_EVENT_INTENT j (logger_debug x ActorLogger j s)) \<and>
              published (snd (in_started x (IntentRecognized intent) s)) =
                published s @ [(WS_EVENT_LOG, log_format x ActorLogger ''DEBUG'' j),
                               (WS_EVENT_INTENT, j)] @
                  map (Pair WS_EVENT_LOG) (fst (requests_get x)) \<and>
              fst (in_started x (IntentRecognized intent) s) =
                (case snd (requests_get x) of
                   Some err \<Rightarrow> Raise err
                 | None \<Rightarrow> Return (Some (dict_set (PStr ''slots'') (PDict slots) intent))))"
proof -
  from intent_slots_loop_last[OF wf, of "[]"] obtain slots
    where l: "intent_slots_loop evs [] = Return slots"
      and g: "\<And>q. dict_get slots q = last_value q evs"
    by (auto split: option.splits) (metis option.case_eq_if option.collapse)
  have a: "\<forall>ev \<in> set evs. \<exists>k. entity_name ev = Some k \<and> dict_get slots k \<noteq> None"
  proof
    fix ev assume m: "ev \<in> set evs"
    with wf have ok: "entity_ok ev" by (simp add: list_all_iff)
    then obtain k where k: "entity_name ev = Some k" by (rule entity_ok_items)
    from last_value_named[OF m ok k] g[of k] k
    show "\<exists>k. entity_name ev = Some k \<and> dict_get slots k \<noteq> None" by auto
  qed
  have b: "\<forall>k v. dict_get slots k = Some v \<longrightarrow>
              (\<exists>ev \<in> set evs. \<exists>k'. entity_name ev = Some k' \<and> key_eq k' k \<and>
                 entity_value ev = Some v)"
    using g last_value_from_entity by auto
  have c: "dict_get (dict_set (PStr ''slots'') (PDict slots) intent) (PStr ''slots'') =
             Some (PDict slots)"
    by (simp add: dict_get_set)
  have d: "\<forall>k. \<not> key_eq (PStr ''slots'') k \<longrightarrow>
              dict_get (dict_set (PStr ''slots'') (PDict slots) intent) k = dict_get intent k"
    by (simp add: dict_get_set)
  have e: "\<forall>j. json_dumps x (PDict (dict_set (PStr ''slots'') (PDict slots) intent)) = Inr j \<longrightarrow>
              snd (in_started x (IntentRecognized intent) s) =
                fold (add_ws_event WS_EVENT_LOG) (fst (requests_get x))
                  (add_ws_event WS_EVENT_INTENT j (logger_debug x ActorLogger j s)) \<and>
              published (snd (in_started x (IntentRecognized intent) s)) =
                published s @ [(WS_EVENT_LOG, log_format x ActorLogger ''DEBUG'' j),
                               (WS_EVENT_INTENT, j)] @
                  map (Pair WS_EVENT_LOG) (fst (requests_get x)) \<and>
              fst (in_started x (IntentRecognized intent) s) =
                (case snd (requests_get x) of
                   Some err \<Rightarrow> Raise err
                 | None \<Rightarrow> Return (Some (dict_set (PStr ''slots'') (PDict slots) intent)))"
    by (simp add: in_started_eval[OF ents l] in_started_published del: fold_simps)
  from l a b c d e show ?thesis by blast
qed


theorem in_started_publishes_once_witness:
  "(case dict_get [(PStr ''entities'',
        PList [PDict [(PStr ''entity'', PStr ''color''), (PStr ''value'', PStr ''red'')],
               PDict [(PStr ''entity'', PStr ''color''), (PStr ''value'', PStr ''blue'')]])]
        (PStr ''entities'') of None \<Rightarrow> PList [] | Some v \<Rightarrow> v) =
     PList [PDict [(PStr ''entity'', PStr ''color''), (PStr ''value'', PStr ''red'')],
            PDict [(PStr ''entity'', PStr ''color''), (PStr ''value'', PStr ''blue'')]] \<and>
   list_all entity_ok
     [PDict [(PStr ''entity'', PStr ''color''), (PStr ''value'', PStr ''red'')],
      PDict [(PStr ''entity'', PStr ''color''), (PStr ''value'', PStr ''blue'')]] \<and>
   published (snd (in_started example_ext (IntentRecognized [(PStr ''entities'',
        PList [PDict [(PStr ''entity'', PStr ''color''), (PStr ''value'', PStr ''red'')],
               PDict [(PStr ''entity'', PStr ''color''), (PStr ''value'', PStr ''blue'')]])])
        running)) =
     published running @
       [(WS_EVENT_LOG, ''DEBUG {\"entities\": [{\"entity\": \"color\", \"value\": \"red\"}, {\"entity\": \"color\", \"value\": \"blue\"}], \"slots\": {\"color\": \"blue\"}}''),
        (WS_EVENT_INTENT, ''{\"entities\": [{\"entity\": \"color\", \"value\": \"red\"}, {\"entity\": \"color\", \"value\": \"blue\"}], \"slots\": {\"color\": \"blue\"}}''),
        (WS_EVENT_LOG, ''DEBUG GET /api/ping'')]"
proof -
  let ?evs = "[PDict [(PStr ''entity'', PStr ''color''), (PStr ''value'', PStr ''red'')],
               PDict [(PStr ''entity'', PStr ''color''), (PStr ''value'', PStr ''blue'')]]"
  let ?intent = "[(PStr ''entities'', PList ?evs)]"
  from in_started_publishes_once[OF two_colors_eval(1) two_colors_eval(2), of example_ext running]
  obtain slots where l: "intent_slots_loop ?evs [] = Return slots"
    and p: "\<And>j. json_dumps example_ext (PDict (dict_set (PStr ''slots'') (PDict slots) ?intent)) = Inr j \<Longrightarrow>
      published (snd (in_started example_ext (IntentRecognized ?intent) running)) =
        published running @ [(WS_EVENT_LOG, log_format example_ext ActorLogger ''DEBUG'' j),
                         (WS_EVENT_INTENT, j)] @
          map (Pair WS_EVENT_LOG) (fst (requests_get example_ext))"
    by blast
  from l two_colors_eval(3) have s: "slots = [(PStr ''color'', PStr ''blue'')]" by simp
  have f: "\<And>j. log_format example_ext ActorLogger ''DEBUG'' j = ''DEBUG '' @ j"
    "fst (requests_get example_ext) = [''DEBUG GET /api/ping'']"
    by (simp_all add: example_ext_def)
  from p[unfolded s, OF two_colors_eval(4)] two_colors_eval(1,2) show ?thesis
    by (simp add: f)
qed


text \<open>
  C10. Under the same conditions, the slot of a name in the published payload is the value
  of the last entity of that name in list order: values of earlier entities of the same
  name are overwritten, and a name no entity has is not a slot. The payload with these
  slots is the one message published to the intent channel, between the log line of the
  \<^verbatim>\<open>debug\<close> call and the log lines of the ping.
\<close>

theorem slots_hold_last_value:
  assumes ents: "(case dict_get intent (PStr ''entities'') of None \<Rightarrow> PList [] | Some v \<Rightarrow> v) = PList evs"
    and wf: "list_all entity_ok evs"
  shows "\<exists>slots. intent_slots_loop evs [] = Return slots \<and>
           (\<forall>k. dict_get slots k = last_value k evs) \<and>
           (\<forall>j. json_dumps x (PDict (dict_set (PStr ''slots'') (PDict slots) intent)) = Inr j \<longrightarrow>
              published (snd (in_started x (IntentRecognized intent) s)) =
                published s @ [(WS_EVENT_LOG, log_format x ActorLogger ''DEBUG'' j),
                               (WS_EVENT_INTENT, j)] @
                  map (Pair WS_EVENT_LOG) (fst (requests_get x)))"
proof -
  from intent_slots_loop_last[OF wf, of "[]"] obtain slots
    where l: "intent_slots_loop evs [] = Return slots"
      and g: "\<And>q. dict_get slots q = last_value q evs"
    by (auto split: option.splits) (metis option.case_eq_if option.collapse)
  have "\<forall>j. json_dumps x (PDict (dict_set (PStr ''slots'') (PDict slots) intent)) = Inr j \<longrightarrow>
              published (snd (in_started x (IntentRecognized intent) s)) =
                published s @ [(WS_EVENT_LOG, log_format x ActorLogger ''DEBUG'' j),
                               (WS_EVENT_INTENT, j)] @
                  map (Pair WS_EVENT_LOG) (fst (requests_get x))"
    by (simp add: in_started_eval[OF ents l] in_started_published del: fold_simps)
  with l g show ?thesis by blast
qed


theorem slots_hold_last_value_witness:
  "(case dict_get [(PStr ''entities'',
        PList [PDict [(PStr ''entity'', PStr ''color''), (PStr ''value'', PStr ''red'')],
               PDict [(PStr ''entity'', PStr ''color''), (PStr ''value'', PStr ''blue'')]])]
        (PStr ''entities'') of None \<Rightarrow> PList [] | Some v \<Rightarrow> v) =
     PList [PDict [(PStr ''entity'', PStr ''color''), (PStr ''value'', PStr ''red'')],
            PDict [(PStr ''entity'', PStr ''color''), (PStr ''value'', PStr ''blue'')]] \<and>
   list_all entity_ok
     [PDict [(PStr ''entity'', PStr ''color''), (PStr ''value'', PStr ''red'')],
      PDict [(PStr ''entity'', PStr ''color''), (PStr ''value'', PStr ''blue'')]] \<and>
   (\<exists>slots. intent_slots_loop
       [PDict [(PStr ''entity'', PStr ''color''), (PStr ''value'', PStr ''red'')],
        PDict [(PStr ''entity'', PStr ''color''), (PStr ''value'', PStr ''blue'')]] [] = Return slots \<and>
      dict_get slots (PStr ''color'') = Some (PStr ''blue''))"
proof -
  let ?evs = "[PDict [(PStr ''entity'', PStr ''color''), (PStr ''value'', PStr ''red'')],
               PDict [(PStr ''entity'', PStr ''color''), (PStr ''value'', PStr ''blue'')]]"
  from slots_hold_last_value[OF two_colors_eval(1) two_colors_eval(2), of example_ext running]
  obtain slots where l: "intent_slots_loop ?evs [] = Return slots"
    and g: "\<And>k. dict_get slots k = last_value k ?evs"
    by blast
  from g[of "PStr ''color''"] two_colors_eval(5)
  have "dict_get slots (PStr ''color'') = Some (PStr ''blue'')" by simp
  with l two_colors_eval(1,2) show ?thesis by blast
qed

end
